theory Spec2Isabelle
  imports Complex_Main "HOL-Library.AList" "HOL-Library.Log_Nat"
begin

section \<open>JavaScript numbers\<close>

text \<open>
  A JavaScript number is an IEEE-754 double: a finite value, an infinity or \<open>NaN\<close>. A
  finite double is modelled by the rational it denotes (the two zeros are one), and
  an arithmetic operation returns the exact result rounded to the nearest double,
  ties to the even significand, or an infinity on overflow. Every comparison with
  \<open>NaN\<close> is false.
\<close>

datatype number = Fin rat | PosInf | NegInf | NaN

text \<open>\<open>ilog2 x\<close> is the exponent \<open>e\<close> with \<open>2^e \<le> x < 2^(e+1)\<close>, for \<open>x > 0\<close>.\<close>

definition ilog2 :: "rat \<Rightarrow> int" where
  "ilog2 x = (if 1 \<le> x then bitlen \<lfloor>x\<rfloor> - 1 else - bitlen (\<lceil>1 / x\<rceil> - 1))"

definition round_half_even :: "rat \<Rightarrow> int" where
  "round_half_even y =
     (let f = \<lfloor>y\<rfloor>; r = y - of_int f
      in if r < 1 / 2 then f else if 1 / 2 < r then f + 1 else if even f then f else f + 1)"

text \<open>Rounding of a positive rational to \<open>prec\<close> significant bits, with the spacing of
  the subnormal numbers below \<open>2^emin\<close>.\<close>

definition round_pos :: "int \<Rightarrow> int \<Rightarrow> rat \<Rightarrow> rat" where
  "round_pos prec emin x =
     (let e = max (ilog2 x) emin; q = 2 powi (e - (prec - 1))
      in of_int (round_half_even (x / q)) * q)"

definition round_to :: "int \<Rightarrow> int \<Rightarrow> int \<Rightarrow> rat \<Rightarrow> number" where
  "round_to prec emin emax x =
     (if x = 0 then Fin 0
      else let y = round_pos prec emin \<bar>x\<bar>
           in if 2 powi (emax + 1) \<le> y then (if 0 < x then PosInf else NegInf)
              else Fin (if 0 < x then y else - y))"

text \<open>binary64 and binary32.\<close>

definition round_double :: "rat \<Rightarrow> number" where
  "round_double = round_to 53 (- 1022) 1023"

definition round_single :: "rat \<Rightarrow> number" where
  "round_single = round_to 24 (- 126) 127"

definition is_double :: "rat \<Rightarrow> bool" where
  "is_double x \<longleftrightarrow> round_double x = Fin x"

text \<open>An infinity times a finite number: the sign decides, and \<open>Infinity * 0\<close> is
  \<open>NaN\<close>.\<close>

definition infinity_times :: "rat \<Rightarrow> number" where
  "infinity_times a = (if 0 < a then PosInf else if a < 0 then NegInf else NaN)"

text \<open>\<open>a * b\<close> where \<open>a\<close> may be \<open>undefined\<close> (a missing key of an object):
  \<open>undefined * b\<close> is \<open>NaN\<close>.\<close>

fun times :: "number option \<Rightarrow> number \<Rightarrow> number" where
  "times (Some (Fin a)) (Fin b) = round_double (a * b)"
| "times (Some (Fin a)) PosInf = infinity_times a"
| "times (Some (Fin a)) NegInf = infinity_times (- a)"
| "times (Some PosInf) (Fin b) = infinity_times b"
| "times (Some NegInf) (Fin b) = infinity_times (- b)"
| "times (Some PosInf) PosInf = PosInf"
| "times (Some PosInf) NegInf = NegInf"
| "times (Some NegInf) PosInf = NegInf"
| "times (Some NegInf) NegInf = PosInf"
| "times _ _ = NaN"

text \<open>\<open>a - b\<close>\<close>

fun minus :: "number \<Rightarrow> number \<Rightarrow> number" where
  "minus (Fin a) (Fin b) = round_double (a - b)"
| "minus (Fin a) PosInf = NegInf"
| "minus (Fin a) NegInf = PosInf"
| "minus PosInf (Fin b) = PosInf"
| "minus PosInf NegInf = PosInf"
| "minus NegInf (Fin b) = NegInf"
| "minus NegInf PosInf = NegInf"
| "minus _ _ = NaN"

text \<open>\<open>a >= b\<close> and \<open>a < b\<close>\<close>

fun ge :: "number \<Rightarrow> number \<Rightarrow> bool" where
  "ge (Fin a) (Fin b) = (b \<le> a)"
| "ge PosInf (Fin b) = True"
| "ge PosInf PosInf = True"
| "ge PosInf NegInf = True"
| "ge (Fin a) NegInf = True"
| "ge NegInf NegInf = True"
| "ge _ _ = False"

fun lt :: "number \<Rightarrow> number \<Rightarrow> bool" where
  "lt (Fin a) (Fin b) = (a < b)"
| "lt NegInf (Fin b) = True"
| "lt NegInf PosInf = True"
| "lt (Fin a) PosInf = True"
| "lt _ _ = False"

fun Math_floor :: "number \<Rightarrow> number" where
  "Math_floor (Fin a) = Fin (of_int \<lfloor>a\<rfloor>)"
| "Math_floor x = x"

text \<open>\<open>x > 0\<close> and \<open>x <= 0\<close>.\<close>

fun gt0 :: "number \<Rightarrow> bool" where
  "gt0 (Fin a) = (0 < a)"
| "gt0 PosInf = True"
| "gt0 NegInf = False"
| "gt0 NaN = False"

fun le0 :: "number \<Rightarrow> bool" where
  "le0 (Fin a) = (a \<le> 0)"
| "le0 PosInf = False"
| "le0 NegInf = True"
| "le0 NaN = False"

section \<open>Reward computation (client/src/pages/home.tsx, calculateTokens)\<close>

text \<open>
  \<^verbatim>\<open>
  const calculateTokens = (mode: string, distance: number): number => {
    const rates: Record<string, number> = {
      'Walking': 1, 'Cycling': 0.5, 'Public Transport': 0.2 };
    return Math.floor(rates[mode] * distance);
  };
  \<close>
  A numeric literal denotes the double nearest to it. \<open>rates[mode]\<close> is \<open>undefined\<close>
  for a mode that is not a key of the table, and what an inherited key gives also
  multiplies to \<open>NaN\<close>.
\<close>

definition rates :: "(string \<times> number) list" where
  "rates = [(''Walking'', round_double 1), (''Cycling'', round_double 0.5),
            (''Public Transport'', round_double 0.2)]"

definition calculateTokens :: "string \<Rightarrow> number \<Rightarrow> number" where
  "calculateTokens mode distance = Math_floor (times (map_of rates mode) distance)"

section \<open>The page state (client/src/pages/home.tsx, Home)\<close>

text \<open>
  The component keeps its state in \<open>useState\<close> cells; a handler reads the cells and
  the model returns the state after the handler's updates. The page is rendered again
  between any two events, so a handler sees the current value of every cell. The
  revision of the page modelled here is the one that mints (\<open>mintTokens\<close>, \<open>minting\<close>,
  \<open>redeeming\<close>). The wallet provider is an opaque object: the model records whether
  the cell holds one. The distance field of the form holds a string: \<open>None\<close> is the
  empty string, \<open>Some x\<close> a non-empty entry whose \<open>parseFloat\<close> is \<open>x\<close>.
\<close>

record tripForm =
  form_mode :: string
  form_distance :: "number option"

record home =
  account :: "string option"
  balance :: number
  loading :: bool
  redeeming :: bool
  minting :: bool
  provider :: bool
  showTripModal :: bool
  tripForm :: tripForm

definition emptyForm :: tripForm where
  "emptyForm = \<lparr>form_mode = ''Walking'', form_distance = None\<rparr>"

definition initial_home :: home where
  "initial_home = \<lparr>account = None, balance = Fin 0, loading = False, redeeming = False,
     minting = False, provider = False, showTripModal = False, tripForm = emptyForm\<rparr>"

text \<open>Truthiness of \<open>account\<close> (\<open>string | null\<close>): \<open>null\<close> and the empty string are falsy.\<close>

fun truthy :: "string option \<Rightarrow> bool" where
  "truthy None = False"
| "truthy (Some a) = (a \<noteq> [])"

text \<open>The catalog. The display texts of an entry play no part in any handler and are
  left out; the costs are whole numbers.\<close>

record reward =
  reward_id :: nat
  cost :: int
  partner :: string

definition REWARDS :: "reward list" where
  "REWARDS =
    [\<lparr>reward_id = 1, cost = 50, partner = ''Corner House''\<rparr>,
     \<lparr>reward_id = 2, cost = 30, partner = ''Third Wave Coffee''\<rparr>,
     \<lparr>reward_id = 3, cost = 75, partner = ''PVR Cinemas''\<rparr>,
     \<lparr>reward_id = 4, cost = 40, partner = ''Nature's Basket''\<rparr>]"

text \<open>The toasts of the handlers modelled here.\<close>

datatype failure_description =
    BlockchainMintingFailed string  \<comment> \<open>\<open>Blockchain minting failed: Token minting failed: <cause>\<close>\<close>
  | ErrorLoggingTrip                \<comment> \<open>\<open>There was an error logging your trip. Please try again.\<close>\<close>

datatype toast =
    InvalidDistance
  | WalletNotConnected
  | TripSubmissionFailed failure_description
  | TokensMinted number string
  | BalanceUpdateFailed
  | RedeemSuccess string
  | InsufficientBalance

text \<open>An awaited promise either resolves with a value or rejects with a cause.\<close>

datatype 'a settled = Resolved 'a | Rejected string

subsection \<open>fetchBalance\<close>

text \<open>
  \<^verbatim>\<open>
  const balance = await contract.balanceOf(address);
  const formattedBalance = formatUnits(balance, 18);
  setBalance(parseInt(formattedBalance));
  \<close>
  and on any error the previous balance is kept and a toast is shown. The contract's
  answer is a \<open>uint256\<close> amount in units of \<open>10^-18\<close> token; \<open>formatUnits\<close> writes it as
  a decimal string and \<open>parseInt\<close> returns the double nearest to the whole number
  before the point (an engine may shorten a number of more than 20 digits before it
  rounds; the model rounds the number itself).
\<close>

definition fetchBalance :: "nat settled \<Rightarrow> home \<Rightarrow> home \<times> toast list" where
  "fetchBalance reply s =
     (case reply of
        Resolved wei \<Rightarrow> (s\<lparr>balance := round_double (of_nat (wei div 10 ^ 18))\<rparr>, [])
      | Rejected cause \<Rightarrow> (s, [BalanceUpdateFailed]))"

subsection \<open>redeemReward\<close>

text \<open>
  The handler has no \<open>await\<close>: it runs to completion before any other handler starts.
  \<^verbatim>\<open>
  if (redeeming) return;
  const oldBalance = balance;  setRedeeming(true);
  let newBalance = oldBalance;
  flushSync(() => { setBalance(prev => {
      if (prev >= reward.cost) { newBalance = prev - reward.cost; return newBalance; }
      else { newBalance = prev; return prev; } }); });
  if (newBalance < oldBalance) toast(Success, coupon) else toast(Insufficient balance);
  setRedeeming(false);
  \<close>
  The six random characters of the coupon code are an argument.
\<close>

definition redeemReward :: "reward \<Rightarrow> string \<Rightarrow> home \<Rightarrow> home \<times> toast list" where
  "redeemReward r rnd s =
     (if redeeming s then (s, [])
      else
        let oldBalance = balance s;
            newBalance = (if ge oldBalance (Fin (of_int (cost r)))
                          then minus oldBalance (Fin (of_int (cost r))) else oldBalance)
        in (s\<lparr>balance := newBalance, redeeming := False\<rparr>,
            [if lt newBalance oldBalance then RedeemSuccess (''BENGALURU-GREEN-'' @ rnd)
             else InsufficientBalance]))"

subsection \<open>submitTrip\<close>

text \<open>
  The handler is asynchronous. It runs without interruption up to
  \<open>await mintTokens(provider, account, tokensEarned)\<close>, is resumed when the mint has
  settled, suspends again in \<open>await fetchBalance(provider, account)\<close> and finishes when
  the balance read has settled. The values it has read before the first \<open>await\<close> stay
  with it.
\<close>

record submission =
  sub_account :: string
  sub_mode :: string
  sub_distance :: number
  sub_tokens :: number

datatype begun =
    Ignored           \<comment> \<open>\<open>Already minting, ignoring duplicate submission\<close>\<close>
  | Shown toast
  | Minting submission  \<comment> \<open>suspended in \<open>mintTokens\<close>\<close>

text \<open>
  \<^verbatim>\<open>
  if (minting) { console.log('Already minting, ...'); return; }
  if (!tripForm.distance || parseFloat(tripForm.distance) <= 0) { toast(Invalid distance); return; }
  const distance = parseFloat(tripForm.distance);
  const tokensEarned = calculateTokens(tripForm.mode, distance);
  if (!account) { toast(Wallet not connected); return; }
  setMinting(true);
  try {
    if (provider && tokensEarned > 0) { const mintResult = await mintTokens(...); ... }
    else { throw new Error('No provider available or no tokens to mint'); }
  } catch (error) { toast(Trip submission failed, ...) } finally { setMinting(false); }
  \<close>
\<close>

definition submitTrip_begin :: "home \<Rightarrow> home \<times> begun" where
  "submitTrip_begin s =
     (if minting s then (s, Ignored)
      else case form_distance (tripForm s) of
        None \<Rightarrow> (s, Shown InvalidDistance)
      | Some distance \<Rightarrow>
          if le0 distance then (s, Shown InvalidDistance)
          else
            let tokensEarned = calculateTokens (form_mode (tripForm s)) distance in
            (case account s of
               None \<Rightarrow> (s, Shown WalletNotConnected)
             | Some a \<Rightarrow>
                 if a = [] then (s, Shown WalletNotConnected)
                 else if provider s \<and> gt0 tokensEarned then
                   (s\<lparr>minting := True\<rparr>,
                    Minting \<lparr>sub_account = a, sub_mode = form_mode (tripForm s),
                             sub_distance = distance, sub_tokens = tokensEarned\<rparr>)
                 else (s\<lparr>minting := False\<rparr>, Shown (TripSubmissionFailed ErrorLoggingTrip))))"

text \<open>
  \<open>mintTokens\<close> returns \<open>{success: true, txHash: receipt.transactionHash}\<close> or throws
  \<open>Token minting failed: <cause>\<close>. The hash is \<open>None\<close> when the receipt has no such
  field. When the mint is rejected the handler goes to its \<open>catch\<close> and \<open>finally\<close>.
\<close>

definition submitTrip_mint_rejected :: "string \<Rightarrow> home \<Rightarrow> home \<times> toast list" where
  "submitTrip_mint_rejected cause s =
     (s\<lparr>minting := False\<rparr>, [TripSubmissionFailed (BlockchainMintingFailed cause)])"

text \<open>The body of a \<open>POST /api/trips\<close> request, as JSON values. \<open>JSON.stringify\<close> writes
  an infinity and \<open>NaN\<close> as \<open>null\<close>.\<close>

datatype json = JNull | JNumber rat | JString string

fun json_of_number :: "number \<Rightarrow> json" where
  "json_of_number (Fin a) = JNumber a"
| "json_of_number x = JNull"

record trip_request =
  req_walletAddress :: string
  req_mode :: json
  req_distance :: json
  req_tokensEarned :: json

text \<open>
  After the mint has resolved and \<open>fetchBalance\<close> has returned:
  \<^verbatim>\<open>
  createTrip.mutate({ walletAddress: account, mode: tripForm.mode, distance, tokensEarned });
  toast({ title: "Tokens minted successfully!", ... mintResult.txHash.slice(0, 10) ... });
  setShowTripModal(false);
  setTripForm({ mode: 'Walking', distance: '' });
  \<close>
  \<open>mintResult.txHash.slice\<close> throws when the hash is undefined; that is after the
  request has been issued, and the handler goes to its \<open>catch\<close> and \<open>finally\<close>.
\<close>

definition trip_request_of :: "submission \<Rightarrow> trip_request" where
  "trip_request_of sub =
     \<lparr>req_walletAddress = sub_account sub, req_mode = JString (sub_mode sub),
      req_distance = json_of_number (sub_distance sub),
      req_tokensEarned = json_of_number (sub_tokens sub)\<rparr>"

definition submitTrip_finish ::
  "submission \<Rightarrow> string option \<Rightarrow> home \<Rightarrow> home \<times> trip_request \<times> toast list" where
  "submitTrip_finish sub txHash s =
     (case txHash of
        Some h \<Rightarrow>
          (s\<lparr>showTripModal := False, tripForm := emptyForm, minting := False\<rparr>,
           trip_request_of sub, [TokensMinted (sub_tokens sub) (take 10 h)])
      | None \<Rightarrow>
          (s\<lparr>minting := False\<rparr>, trip_request_of sub,
           [TripSubmissionFailed ErrorLoggingTrip]))"

subsection \<open>connectWallet\<close>

text \<open>
  After the wallet has answered: \<open>setAccount(address); setProvider(provider);
  await fetchBalance(provider, address);\<close> and, in \<open>finally\<close>, \<open>setLoading(false)\<close>.
\<close>

definition connectWallet :: "string \<Rightarrow> nat settled \<Rightarrow> home \<Rightarrow> home \<times> toast list" where
  "connectWallet address reply s =
     (let (s', ts) = fetchBalance reply (s\<lparr>account := Some address, provider := True\<rparr>)
      in (s'\<lparr>loading := False\<rparr>, ts))"

section \<open>Storage (server/storage.ts)\<close>

text \<open>
  Rows as declared in shared/schema.ts. Identifiers (\<open>randomUUID\<close>,
  \<open>gen_random_uuid()\<close>) and timestamps (\<open>new Date()\<close>, \<open>defaultNow()\<close>) come from
  outside and are arguments of the operations that use them.
\<close>

record user =
  user_id :: string
  walletAddress :: string
  user_createdAt :: nat

record trip =
  trip_id :: string
  userId :: string
  mode :: string
  distance :: rat
  tokensEarned :: rat
  createdAt :: nat

record insertTrip =
  ins_userId :: string
  ins_mode :: string
  ins_distance :: rat
  ins_tokensEarned :: rat

text \<open>\<open>String.prototype.toLowerCase\<close>, on strings of ASCII characters (a wallet address
  is one): the letters \<open>A\<close> to \<open>Z\<close> are mapped and every other character is kept.\<close>

definition lower_char :: "char \<Rightarrow> char" where
  "lower_char c =
     (let n = (of_char c :: nat) in if 65 \<le> n \<and> n \<le> 90 then char_of (n + 32) else c)"

definition toLowerCase :: "string \<Rightarrow> string" where
  "toLowerCase a = map lower_char a"

text \<open>
  The interface \<open>IStorage\<close>. An operation either returns or throws (its promise
  rejects); an operation that writes returns the storage after the write.
\<close>

record 's IStorage =
  getUserByWalletAddress :: "'s \<Rightarrow> string \<Rightarrow> string + user option"
  createUser :: "'s \<Rightarrow> string \<Rightarrow> string \<Rightarrow> nat \<Rightarrow> string + 's \<times> user"
  createTrip :: "'s \<Rightarrow> insertTrip \<Rightarrow> string \<Rightarrow> nat \<Rightarrow> string + 's \<times> trip"
  getTripsByUserId :: "'s \<Rightarrow> string \<Rightarrow> string + trip list"

subsection \<open>MemStorage\<close>

text \<open>A JavaScript \<open>Map\<close> keeps its entries in insertion order; \<open>set\<close> on a key that is
  present replaces the value in place, which is what \<open>AList.update\<close> does.\<close>

record MemStorage =
  users :: "(string \<times> user) list"
  trips :: "(string \<times> trip) list"

definition Mem_empty :: MemStorage where
  "Mem_empty = \<lparr>users = [], trips = []\<rparr>"

definition Mem_getUserByWalletAddress :: "MemStorage \<Rightarrow> string \<Rightarrow> user option" where
  "Mem_getUserByWalletAddress st a =
     find (\<lambda>u. toLowerCase (walletAddress u) = toLowerCase a) (map snd (users st))"

definition Mem_createUser :: "MemStorage \<Rightarrow> string \<Rightarrow> string \<Rightarrow> nat \<Rightarrow> MemStorage \<times> user" where
  "Mem_createUser st a newId now =
     (let u = \<lparr>user_id = newId, walletAddress = a, user_createdAt = now\<rparr>
      in (st\<lparr>users := AList.update newId u (users st)\<rparr>, u))"

definition Mem_createTrip :: "MemStorage \<Rightarrow> insertTrip \<Rightarrow> string \<Rightarrow> nat \<Rightarrow> MemStorage \<times> trip" where
  "Mem_createTrip st i newId now =
     (let t = \<lparr>trip_id = newId, userId = ins_userId i, mode = ins_mode i,
                distance = ins_distance i, tokensEarned = ins_tokensEarned i,
                createdAt = now\<rparr>
      in (st\<lparr>trips := AList.update newId t (trips st)\<rparr>, t))"

text \<open>\<open>filter\<close>, then a (stable) sort, most recent first.\<close>

definition Mem_getTripsByUserId :: "MemStorage \<Rightarrow> string \<Rightarrow> trip list" where
  "Mem_getTripsByUserId st uid =
     sort_key (\<lambda>t. - int (createdAt t)) (filter (\<lambda>t. userId t = uid) (map snd (trips st)))"

definition MemStorage_impl :: "MemStorage IStorage" where
  "MemStorage_impl =
     \<lparr>getUserByWalletAddress = (\<lambda>st a. Inr (Mem_getUserByWalletAddress st a)),
      createUser = (\<lambda>st a newId now. Inr (Mem_createUser st a newId now)),
      createTrip = (\<lambda>st i newId now. Inr (Mem_createTrip st i newId now)),
      getTripsByUserId = (\<lambda>st uid. Inr (Mem_getTripsByUserId st uid))\<rparr>"

subsection \<open>DatabaseStorage\<close>

text \<open>
  The tables are lists of rows, and the identifiers the database generates are new.
  \<open>wallet_address\<close> is declared \<open>unique\<close>: an insert with
  \<open>onConflictDoNothing({ target: users.walletAddress })\<close> adds no row and returns
  none when a row with that address is there. \<open>eq\<close> on a text column is equality of
  strings.
\<close>

record DatabaseStorage =
  users_table :: "user list"
  trips_table :: "trip list"

definition Db_empty :: DatabaseStorage where
  "Db_empty = \<lparr>users_table = [], trips_table = []\<rparr>"

text \<open>\<open>const [user] = await db.select().from(users).where(eq(users.walletAddress,
  walletAddress.toLowerCase())); return user || undefined;\<close>\<close>

definition Db_getUserByWalletAddress :: "DatabaseStorage \<Rightarrow> string \<Rightarrow> user option" where
  "Db_getUserByWalletAddress db a =
     (case filter (\<lambda>u. walletAddress u = toLowerCase a) (users_table db) of
        [] \<Rightarrow> None
      | u # _ \<Rightarrow> Some u)"

definition insert_user_onConflictDoNothing :: "DatabaseStorage \<Rightarrow> user \<Rightarrow> DatabaseStorage \<times> user list" where
  "insert_user_onConflictDoNothing db row =
     (case find (\<lambda>u. walletAddress u = walletAddress row) (users_table db) of
        Some conflicting \<Rightarrow> (db, [])
      | None \<Rightarrow> (db\<lparr>users_table := users_table db @ [row]\<rparr>, [row]))"

text \<open>
  \<^verbatim>\<open>
  try {
    const [user] = await db.insert(users)
      .values({ ...insertUser, walletAddress: insertUser.walletAddress.toLowerCase() })
      .onConflictDoNothing({ target: users.walletAddress }).returning();
    if (user) return user;
    else { const existingUser = await this.getUserByWalletAddress(insertUser.walletAddress);
           if (existingUser) return existingUser;
           throw new Error('Failed to create or retrieve user'); }
  } catch (error) {
    const existingUser = await this.getUserByWalletAddress(insertUser.walletAddress);
    if (existingUser) return existingUser;
    throw error; }
  \<close>
\<close>

definition Db_createUser ::
  "DatabaseStorage \<Rightarrow> string \<Rightarrow> string \<Rightarrow> nat \<Rightarrow> string + DatabaseStorage \<times> user" where
  "Db_createUser db a newId now =
     (case insert_user_onConflictDoNothing db
             \<lparr>user_id = newId, walletAddress = toLowerCase a, user_createdAt = now\<rparr> of
        (db', u # _) \<Rightarrow> Inr (db', u)
      | (db', []) \<Rightarrow>
          (case Db_getUserByWalletAddress db' a of
             Some existingUser \<Rightarrow> Inr (db', existingUser)
           | None \<Rightarrow>
               (case Db_getUserByWalletAddress db' a of
                  Some existingUser \<Rightarrow> Inr (db', existingUser)
                | None \<Rightarrow> Inl ''Failed to create or retrieve user'')))"

text \<open>
  \<open>db.insert(trips).values(insertTrip).returning()\<close>. The columns decide what the row
  holds: \<open>tokens_earned\<close> is an \<open>integer\<close> (four bytes), \<open>distance\<close> a \<open>real\<close> (single
  precision) and \<open>user_id\<close> references \<open>users.id\<close>. A value that is not a whole
  number of that range, a distance that overflows single precision or is not zero
  and rounds to zero, and a user that does not exist make the insert throw; otherwise
  the row holds the distance rounded to single precision.
\<close>

definition int4 :: "rat \<Rightarrow> bool" where
  "int4 t \<longleftrightarrow> t = of_int \<lfloor>t\<rfloor> \<and> - (2 ^ 31) \<le> t \<and> t < 2 ^ 31"

definition Db_createTrip ::
  "DatabaseStorage \<Rightarrow> insertTrip \<Rightarrow> string \<Rightarrow> nat \<Rightarrow> string + DatabaseStorage \<times> trip" where
  "Db_createTrip db i newId now =
     (if \<not> int4 (ins_tokensEarned i) then Inl ''integer out of range''
      else if find (\<lambda>u. user_id u = ins_userId i) (users_table db) = None
        then Inl ''violates foreign key constraint''
      else case round_single (ins_distance i) of
        Fin y \<Rightarrow>
          if y = 0 \<and> ins_distance i \<noteq> 0 then Inl ''out of range for type real''
          else
            (let t = \<lparr>trip_id = newId, userId = ins_userId i, mode = ins_mode i,
                       distance = y, tokensEarned = ins_tokensEarned i, createdAt = now\<rparr>
             in Inr (db\<lparr>trips_table := trips_table db @ [t]\<rparr>, t))
      | _ \<Rightarrow> Inl ''out of range for type real'')"

definition Db_getTripsByUserId :: "DatabaseStorage \<Rightarrow> string \<Rightarrow> trip list" where
  "Db_getTripsByUserId db uid =
     sort_key (\<lambda>t. - int (createdAt t)) (filter (\<lambda>t. userId t = uid) (trips_table db))"

definition DatabaseStorage_impl :: "DatabaseStorage IStorage" where
  "DatabaseStorage_impl =
     \<lparr>getUserByWalletAddress = (\<lambda>db a. Inr (Db_getUserByWalletAddress db a)),
      createUser = Db_createUser,
      createTrip = Db_createTrip,
      getTripsByUserId = (\<lambda>db uid. Inr (Db_getTripsByUserId db uid))\<rparr>"

section \<open>Routes (server/routes.ts)\<close>

datatype payload =
    Message string
  | UserJson user
  | TripJson trip
  | TripsJson "trip list"

type_synonym response = "nat \<times> payload"

text \<open>
  \<open>insertTripSchema\<close> is derived by a library from the columns of the \<open>trips\<close> table
  (\<open>user_id varchar\<close>, \<open>mode text\<close>, \<open>distance real\<close>, \<open>tokens_earned integer\<close>, all
  \<open>notNull\<close>): \<open>parse\<close> throws a \<open>ZodError\<close> (\<open>None\<close>) unless the fields are a string,
  a number and a number. What more it asks of these (a whole number, bounds) depends
  on the version of the library, which the repository does not fix: that part is the
  argument \<open>accepts\<close>. A schema returns the values it has accepted.
\<close>

fun insertTripSchema_parse ::
  "(string \<Rightarrow> rat \<Rightarrow> rat \<Rightarrow> bool) \<Rightarrow> string \<Rightarrow> json \<Rightarrow> json \<Rightarrow> json \<Rightarrow> insertTrip option" where
  "insertTripSchema_parse accepts uid (JString m) (JNumber d) (JNumber t) =
     (if accepts m d t
      then Some \<lparr>ins_userId = uid, ins_mode = m, ins_distance = d, ins_tokensEarned = t\<rparr>
      else None)"
| "insertTripSchema_parse accepts uid _ _ _ = None"

text \<open>The schema that asks nothing beyond the types of the fields.\<close>

definition types_only :: "string \<Rightarrow> rat \<Rightarrow> rat \<Rightarrow> bool" where
  "types_only m d t = True"

text \<open>A schema that follows the columns further: it also asks \<open>tokensEarned\<close> to be a
  whole number of the range of an \<open>integer\<close> column.\<close>

definition column_ranges :: "string \<Rightarrow> rat \<Rightarrow> rat \<Rightarrow> bool" where
  "column_ranges m d t \<longleftrightarrow> int4 t"

text \<open>\<open>POST /api/auth/wallet\<close>. A missing or empty \<open>walletAddress\<close> is falsy.\<close>

definition post_auth_wallet ::
  "'s IStorage \<Rightarrow> 's \<Rightarrow> string \<Rightarrow> string \<Rightarrow> nat \<Rightarrow> 's \<times> response" where
  "post_auth_wallet storage st a newId now =
     (if a = [] then (st, (400, Message ''Wallet address is required''))
      else case getUserByWalletAddress storage st a of
        Inl err \<Rightarrow> (st, (500, Message ''Internal server error''))
      | Inr (Some u) \<Rightarrow> (st, (200, UserJson u))
      | Inr None \<Rightarrow>
          (case createUser storage st a newId now of
             Inl err \<Rightarrow> (st, (500, Message ''Internal server error''))
           | Inr (st', u) \<Rightarrow> (st', (200, UserJson u))))"

text \<open>\<open>GET /api/trips/:walletAddress\<close>\<close>

definition get_trips :: "'s IStorage \<Rightarrow> 's \<Rightarrow> string \<Rightarrow> response" where
  "get_trips storage st a =
     (case getUserByWalletAddress storage st a of
        Inl err \<Rightarrow> (500, Message ''Internal server error'')
      | Inr None \<Rightarrow> (404, Message ''User not found'')
      | Inr (Some u) \<Rightarrow>
          (case getTripsByUserId storage st (user_id u) of
             Inl err \<Rightarrow> (500, Message ''Internal server error'')
           | Inr ts \<Rightarrow> (200, TripsJson ts)))"

text \<open>\<open>POST /api/trips\<close>. The user is found or created before the trip data is
  validated; a user created then stays when the request fails later.\<close>

definition post_trips ::
  "'s IStorage \<Rightarrow> (string \<Rightarrow> rat \<Rightarrow> rat \<Rightarrow> bool) \<Rightarrow> 's \<Rightarrow> trip_request \<Rightarrow>
     string \<Rightarrow> string \<Rightarrow> nat \<Rightarrow> 's \<times> response" where
  "post_trips storage accepts st req newUserId newTripId now =
     (if req_walletAddress req = [] then (st, (400, Message ''Wallet address is required''))
      else case getUserByWalletAddress storage st (req_walletAddress req) of
        Inl err \<Rightarrow> (st, (500, Message ''Internal server error''))
      | Inr found \<Rightarrow>
          (case (case found of
                   Some u \<Rightarrow> Inr (st, u)
                 | None \<Rightarrow> createUser storage st (req_walletAddress req) newUserId now) of
             Inl err \<Rightarrow> (st, (500, Message ''Internal server error''))
           | Inr (st1, u) \<Rightarrow>
               (case insertTripSchema_parse accepts (user_id u) (req_mode req)
                       (req_distance req) (req_tokensEarned req) of
                  None \<Rightarrow> (st1, (400, Message ''Invalid trip data''))
                | Some tripData \<Rightarrow>
                    (case createTrip storage st1 tripData newTripId now of
                       Inl err \<Rightarrow> (st1, (500, Message ''Internal server error''))
                     | Inr (st2, t) \<Rightarrow> (st2, (200, TripJson t))))))"

section \<open>A trip submission from click to completion\<close>

text \<open>
  One call of \<open>submitTrip\<close> with nothing else happening in between, against a server
  with the storage \<open>storage\<close>. The ledger's answers (to the mint, to the balance read),
  whether the request reaches the server (\<open>delivered\<close>), and the identifiers and time
  the server will use are arguments; an answer is only looked at when the handler
  asks for it. \<open>createTrip.mutate\<close> sends the request and does not wait for it; its
  callbacks write no state cell. \<open>toasts\<close> are the toasts of the handler; those of
  the callbacks (\<open>Trip logged!\<close>, \<open>Failed to log trip\<close>) come with the server's answer
  and are left out. \<open>mint_result\<close> is what the mint step reported, if the handler got
  that far, \<open>request\<close> the request sent, and \<open>persisted\<close> the trip row the server
  answered with.
\<close>

record 's outcome =
  client :: home
  server :: 's
  toasts :: "toast list"
  mint_result :: "string option settled option"
  request :: "trip_request option"
  persisted :: "trip option"

fun created_trip :: "response \<Rightarrow> trip option" where
  "created_trip (code, TripJson t) = Some t"
| "created_trip (code, other) = None"

definition submitTrip ::
  "'s IStorage \<Rightarrow> (string \<Rightarrow> rat \<Rightarrow> rat \<Rightarrow> bool) \<Rightarrow> bool \<Rightarrow>
     string option settled \<Rightarrow> nat settled \<Rightarrow> string \<Rightarrow> string \<Rightarrow> nat \<Rightarrow>
     home \<Rightarrow> 's \<Rightarrow> 's outcome" where
  "submitTrip storage accepts delivered mint_reply balance_reply newUserId newTripId now s srv =
     (case submitTrip_begin s of
        (s1, Ignored) \<Rightarrow>
          \<lparr>client = s1, server = srv, toasts = [], mint_result = None, request = None,
           persisted = None\<rparr>
      | (s1, Shown t) \<Rightarrow>
          \<lparr>client = s1, server = srv, toasts = [t], mint_result = None, request = None,
           persisted = None\<rparr>
      | (s1, Minting sub) \<Rightarrow>
          (case mint_reply of
             Rejected cause \<Rightarrow>
               (let (s2, ts) = submitTrip_mint_rejected cause s1
                in \<lparr>client = s2, server = srv, toasts = ts,
                     mint_result = Some mint_reply, request = None, persisted = None\<rparr>)
           | Resolved txHash \<Rightarrow>
               (let (s2, ts2) = fetchBalance balance_reply s1;
                    (s3, req, ts3) = submitTrip_finish sub txHash s2
                in if delivered
                   then (let (srv', resp) =
                               post_trips storage accepts srv req newUserId newTripId now
                         in \<lparr>client = s3, server = srv', toasts = ts2 @ ts3,
                              mint_result = Some mint_reply, request = Some req,
                              persisted = created_trip resp\<rparr>)
                   else \<lparr>client = s3, server = srv, toasts = ts2 @ ts3,
                          mint_result = Some mint_reply, request = Some req,
                          persisted = None\<rparr>)))"

section \<open>The page as a transition system\<close>

text \<open>
  Handlers interleave at their \<open>await\<close>s. A world is the page state, the calls of
  \<open>submitTrip\<close> that are suspended (each with the values it holds and what it waits
  for), and the requests the page has sent to \<open>POST /api/trips\<close>. The events are the
  user's actions and the settling of an awaited ledger call; an event that finds
  nothing waiting for it changes nothing. The connect button is rendered only while
  \<open>account\<close> is falsy. No handler reads an answer of the server into a state cell.
\<close>

datatype awaiting = AwaitingMint | AwaitingBalance "string option"

record world =
  ui :: home
  suspended :: "(submission \<times> awaiting) list"
  sent :: "trip_request list"

definition initial_world :: world where
  "initial_world = \<lparr>ui = initial_home, suspended = [], sent = []\<rparr>"

datatype event =
    Connect string "nat settled"
  | EditForm tripForm
  | ShowModal bool
  | Submit
  | MintSettled "string option settled"
  | BalanceSettled "nat settled"
  | Redeem reward string

fun step :: "event \<Rightarrow> world \<Rightarrow> world" where
  "step (Connect a reply) w =
     (if truthy (account (ui w)) then w
      else w\<lparr>ui := fst (connectWallet a reply (ui w))\<rparr>)"
| "step (EditForm f) w = w\<lparr>ui := (ui w)\<lparr>tripForm := f\<rparr>\<rparr>"
| "step (ShowModal b) w = w\<lparr>ui := (ui w)\<lparr>showTripModal := b\<rparr>\<rparr>"
| "step Submit w =
     (case submitTrip_begin (ui w) of
        (s, Minting sub) \<Rightarrow> w\<lparr>ui := s, suspended := suspended w @ [(sub, AwaitingMint)]\<rparr>
      | (s, Ignored) \<Rightarrow> w\<lparr>ui := s\<rparr>
      | (s, Shown t) \<Rightarrow> w\<lparr>ui := s\<rparr>)"
| "step (MintSettled reply) w =
     (case suspended w of
        (sub, AwaitingMint) # rest \<Rightarrow>
          (case reply of
             Rejected cause \<Rightarrow>
               w\<lparr>ui := fst (submitTrip_mint_rejected cause (ui w)), suspended := rest\<rparr>
           | Resolved txHash \<Rightarrow> w\<lparr>suspended := (sub, AwaitingBalance txHash) # rest\<rparr>)
      | _ \<Rightarrow> w)"
| "step (BalanceSettled reply) w =
     (case suspended w of
        (sub, AwaitingBalance txHash) # rest \<Rightarrow>
          (let (s2, ts2) = fetchBalance reply (ui w);
               (s3, req, ts3) = submitTrip_finish sub txHash s2
           in \<lparr>ui = s3, suspended = rest, sent = sent w @ [req]\<rparr>)
      | _ \<Rightarrow> w)"
| "step (Redeem r rnd) w = w\<lparr>ui := fst (redeemReward r rnd (ui w))\<rparr>"

inductive reachable :: "world \<Rightarrow> bool" where
  reachable_init: "reachable initial_world"
| reachable_step: "reachable w \<Longrightarrow> reachable (step e w)"

subsection \<open>Worlds used in the examples\<close>

text \<open>A wallet with 125 tokens on the ledger has connected; then the form is filled
  in with a 10 km walk, with 1 km by public transport, with a walk of 2.9999999 km,
  or with a walk of three billion kilometres.\<close>

definition connected_world :: world where
  "connected_world = step (Connect ''0xAbC1'' (Resolved (125 * 10 ^ 18))) initial_world"

definition walking_world :: world where
  "walking_world =
     step (EditForm \<lparr>form_mode = ''Walking'', form_distance = Some (Fin 10)\<rparr>) connected_world"

definition transit_world :: world where
  "transit_world =
     step (EditForm \<lparr>form_mode = ''Public Transport'', form_distance = Some (Fin 1)\<rparr>)
       connected_world"

definition short_walk_world :: world where
  "short_walk_world =
     step (EditForm \<lparr>form_mode = ''Walking'',
                     form_distance = Some (round_double 2.9999999)\<rparr>) connected_world"

definition long_walk_world :: world where
  "long_walk_world =
     step (EditForm \<lparr>form_mode = ''Walking'', form_distance = Some (Fin 3000000000)\<rparr>)
       connected_world"

text \<open>The 10 km walk is submitted; the mint resolves; the balance read resolves and
  the request is sent.\<close>

definition minting_world :: world where
  "minting_world = step Submit walking_world"


text \<open>A wallet with \<open>2^60\<close> tokens on the ledger has connected.\<close>

definition rich_world :: world where
  "rich_world = step (Connect ''0xAbC1'' (Resolved (2 ^ 60 * 10 ^ 18))) initial_world"

subsection \<open>Well-formed submissions and requests\<close>



section \<open>Auxiliary facts\<close>

subsection \<open>Rounding\<close>

lemma ilog2_bounds:
  assumes "0 < x"
  shows "2 powi (ilog2 x) \<le> x \<and> x < 2 powi (ilog2 x + 1)"
proof (cases "1 \<le> x")
  case True
  define n where "n = \<lfloor>x\<rfloor>"
  have n: "1 \<le> n" using True by (simp add: n_def le_floor_iff)
  then have b: "2 ^ nat (bitlen n - 1) \<le> n" "n < 2 ^ nat (bitlen n)"
    using bitlen_bounds [of n] by simp_all
  have k: "1 \<le> bitlen n" using n by (simp add: bitlen_alt_def)
  have "(2::rat) powi (bitlen n - 1) = of_int (2 ^ nat (bitlen n - 1))"
    using k by (simp add: power_int_def power_one_over)
  also have "\<dots> \<le> of_int n" using b(1) by (simp only: of_int_le_iff)
  also have "\<dots> \<le> x" by (simp add: n_def)
  finally have lo: "2 powi (bitlen n - 1) \<le> x" .
  have "x < of_int (n + 1)" unfolding n_def using floor_correct [of x] by blast
  also have "\<dots> \<le> of_int (2 ^ nat (bitlen n))" using b(2) by (simp only: of_int_le_iff)
  also have "\<dots> = (2::rat) powi (bitlen n)" using k by (simp add: power_int_def power_one_over)
  finally have hi: "x < 2 powi (bitlen n)" .
  from lo hi True show ?thesis by (simp add: ilog2_def n_def)
next
  case False
  define m where "m = \<lceil>1 / x\<rceil> - 1"
  have y: "1 < 1 / x" using False assms by simp
  then have m: "1 \<le> m" unfolding m_def by (simp add: less_ceiling_iff)
  then have b: "2 ^ nat (bitlen m - 1) \<le> m" "m < 2 ^ nat (bitlen m)"
    using bitlen_bounds [of m] by simp_all
  have k: "1 \<le> bitlen m" using m by (simp add: bitlen_alt_def)
  have my: "of_int m < 1 / x" unfolding m_def using ceiling_correct [of "1 / x"] by simp
  have ym: "1 / x \<le> of_int (m + 1)" unfolding m_def using ceiling_correct [of "1 / x"] by simp
  have "1 / x \<le> of_int (m + 1)" by (rule ym)
  also have "\<dots> \<le> of_int (2 ^ nat (bitlen m))" using b(2) by (simp only: of_int_le_iff)
  also have "\<dots> = (2::rat) ^ nat (bitlen m)" by simp
  finally have "1 / x \<le> 2 ^ nat (bitlen m)" .
  then have "1 / 2 ^ nat (bitlen m) \<le> x"
    using assms by (simp add: field_simps)
  moreover have "(2::rat) powi (- bitlen m) = 1 / 2 ^ nat (bitlen m)"
    using k by (simp add: power_int_def field_simps)
  ultimately have lo: "2 powi (- bitlen m) \<le> x" by simp
  have "(2::rat) ^ nat (bitlen m - 1) = of_int (2 ^ nat (bitlen m - 1))" by simp
  also have "\<dots> \<le> of_int m" using b(1) by (simp only: of_int_le_iff)
  also have "\<dots> < 1 / x" by (rule my)
  finally have "2 ^ nat (bitlen m - 1) < 1 / x" .
  then have "x < 1 / 2 ^ nat (bitlen m - 1)"
    using assms by (simp add: field_simps)
  moreover have "(2::rat) powi (- bitlen m + 1) = 1 / 2 ^ nat (bitlen m - 1)"
  proof (cases "bitlen m = 1")
    case True
    then show ?thesis by simp
  next
    case False
    with k have "- bitlen m + 1 < 0" by simp
    then show ?thesis
      by (simp add: power_int_def field_simps nat_diff_distrib')
  qed
  ultimately have hi: "x < 2 powi (- bitlen m + 1)" by simp
  from lo hi False show ?thesis by (simp add: ilog2_def m_def)
qed

lemma ilog2_eqI:
  assumes "2 powi e \<le> x" and "x < 2 powi (e + 1)"
  shows "ilog2 x = e"
proof -
  have "(0::rat) < 2 powi e" by simp
  with assms(1) have pos: "0 < x" by linarith
  note b = ilog2_bounds [OF pos]
  have "\<not> ilog2 x < e"
  proof
    assume "ilog2 x < e"
    then have "ilog2 x + 1 \<le> e" by simp
    then have "(2::rat) powi (ilog2 x + 1) \<le> 2 powi e" by (intro power_int_increasing) simp_all
    with b assms(1) show False by simp
  qed
  moreover have "\<not> e < ilog2 x"
  proof
    assume "e < ilog2 x"
    then have "e + 1 \<le> ilog2 x" by simp
    then have "(2::rat) powi (e + 1) \<le> 2 powi (ilog2 x)" by (intro power_int_increasing) simp_all
    with b assms(2) show False by simp
  qed
  ultimately show ?thesis by simp
qed


lemma pow2_less_imp_less:
  assumes "(2::rat) powi a < 2 powi b"
  shows "a < b"
proof (rule ccontr)
  assume "\<not> a < b"
  then have "b \<le> a" by simp
  then have "(2::rat) powi b \<le> 2 powi a" by (intro power_int_increasing) simp_all
  with assms show False by simp
qed

lemma rhe_of_int: "round_half_even (of_int n) = n"
  by (simp add: round_half_even_def)

lemma rhe_nonneg: "0 \<le> y \<Longrightarrow> 0 \<le> round_half_even y"
  by (auto simp: round_half_even_def Let_def)

lemma rhe_le:
  assumes "y \<le> of_int k"
  shows "round_half_even y \<le> k"
proof (cases "y = of_int k")
  case True
  then show ?thesis by (simp add: rhe_of_int)
next
  case False
  with assms have "y < of_int k" by simp
  then have "\<lfloor>y\<rfloor> < k" by (simp add: floor_less_iff)
  then have "\<lfloor>y\<rfloor> + 1 \<le> k" by simp
  then show ?thesis by (auto simp: round_half_even_def Let_def)
qed

lemma round_pos_nonneg: "0 < x \<Longrightarrow> 0 \<le> round_pos p emin x"
  by (simp add: round_pos_def Let_def rhe_nonneg)

lemma round_pos_exact:
  assumes "x = of_int k * 2 powi (max (ilog2 x) emin - (p - 1))"
  shows "round_pos p emin x = x"
proof -
  let ?q = "(2::rat) powi (max (ilog2 x) emin - (p - 1))"
  have "x / ?q = of_int k" using assms by (metis nonzero_mult_div_cancel_right power_int_eq_0_iff zero_neq_numeral)
  then show ?thesis using assms by (simp add: round_pos_def Let_def rhe_of_int)
qed

lemma round_pos_fixed:
  assumes "round_pos p emin x = x"
  shows "\<exists>k. x = of_int k * 2 powi (max (ilog2 x) emin - (p - 1))"
  using assms by (metis round_pos_def)

lemma round_pos_le:
  assumes "0 < x" and "x < 2 powi (E + 1)" and "emin \<le> E" and "1 \<le> p"
  shows "round_pos p emin x \<le> 2 powi (E + 1)"
proof -
  define e where "e = max (ilog2 x) emin"
  let ?q = "(2::rat) powi (e - (p - 1))"
  have "2 powi (ilog2 x) \<le> x" using ilog2_bounds [OF assms(1)] by simp
  with assms(2) have "(2::rat) powi (ilog2 x) < 2 powi (E + 1)" by simp
  then have "ilog2 x < E + 1" by (rule pow2_less_imp_less)
  with assms(3) have eE: "e \<le> E" by (simp add: e_def)
  have q: "0 < ?q" by simp
  have "x < 2 powi (ilog2 x + 1)" using ilog2_bounds [OF assms(1)] by simp
  also have "\<dots> \<le> 2 powi (e + 1)" by (intro power_int_increasing) (simp_all add: e_def)
  finally have xe: "x < 2 powi (e + 1)" .
  have split: "(2::rat) powi (e + 1) = 2 powi p * ?q"
    by (simp add: power_int_add [symmetric])
  have pk: "(2::rat) powi p = of_int (2 ^ nat p)" using assms(4) by (simp add: power_int_def power_one_over)
  have "x < 2 powi p * ?q" using xe unfolding split .
  then have "x / ?q < 2 powi p" using q by (simp only: pos_divide_less_eq)
  then have "x / ?q \<le> 2 powi p" by simp
  then have "round_half_even (x / ?q) \<le> 2 ^ nat p" unfolding pk by (rule rhe_le)
  then have "of_int (round_half_even (x / ?q)) \<le> (2::rat) powi p"
    unfolding pk by (simp only: of_int_le_iff)
  then have "of_int (round_half_even (x / ?q)) * ?q \<le> 2 powi p * ?q"
    using q by (simp add: mult_right_mono)
  also have "\<dots> = 2 powi (e + 1)" by (simp add: split)
  also have "\<dots> \<le> 2 powi (E + 1)" using eE by (intro power_int_increasing) simp_all
  finally show ?thesis by (simp add: round_pos_def Let_def e_def)
qed

lemma ilog2_half:
  assumes "0 < x"
  shows "ilog2 (x / 2) = ilog2 x - 1"
proof (rule ilog2_eqI)
  note b = ilog2_bounds [OF assms]
  have h: "(2::rat) powi (ilog2 x) = 2 * 2 powi (ilog2 x - 1)"
    "(2::rat) powi (ilog2 x + 1) = 2 * 2 powi (ilog2 x - 1 + 1)"
    by (simp_all add: power_int_diff power_int_add)
  show "2 powi (ilog2 x - 1) \<le> x / 2" using b h by simp
  show "x / 2 < 2 powi (ilog2 x - 1 + 1)" using b h by simp
qed


lemma round_double_pos:
  "0 < x \<Longrightarrow> round_double x =
     (if 2 powi 1024 \<le> round_pos 53 (- 1022) x then PosInf else Fin (round_pos 53 (- 1022) x))"
  by (simp add: round_double_def round_to_def Let_def)

lemma is_double_posD:
  assumes "is_double d" and "0 < d"
  shows "round_pos 53 (- 1022) d = d" and "d < 2 powi 1024"
  using assms by (auto simp: is_double_def round_double_pos split: if_splits)

lemma round_double_bounded:
  assumes "0 < x" and "x < 2 powi (E + 1)" and "- 1022 \<le> E" and "E < 1023"
  shows "\<exists>p. round_double x = Fin p \<and> 0 \<le> p \<and> p \<le> 2 powi (E + 1)"
proof -
  have le: "round_pos 53 (- 1022) x \<le> 2 powi (E + 1)"
    using assms(1,2,3) by (intro round_pos_le) simp_all
  have "(2::rat) powi (E + 1) < 2 powi 1024"
    using assms(4) by (intro power_int_strict_increasing) simp_all
  with le have "\<not> 2 powi 1024 \<le> round_pos 53 (- 1022) x" by simp
  then show ?thesis
    using le round_pos_nonneg [OF assms(1), of 53 "- 1022"] assms(1)
    by (simp add: round_double_pos)
qed

lemma round_double_nonneg:
  assumes "0 \<le> x"
  shows "round_double x = PosInf \<or> (\<exists>p. round_double x = Fin p \<and> 0 \<le> p)"
proof (cases "x = 0")
  case True
  then show ?thesis by (simp add: round_double_def round_to_def)
next
  case False
  with assms have "0 < x" by simp
  then show ?thesis
    using round_pos_nonneg [of x 53 "- 1022"] by (simp add: round_double_pos)
qed

lemma round_double_int:
  assumes "0 \<le> n" and "n \<le> 2 ^ 53"
  shows "round_double (of_int n) = Fin (of_int n)"
proof (cases "n = 0")
  case True
  then show ?thesis by (simp add: round_double_def round_to_def)
next
  case False
  with assms have n: "1 \<le> n" by simp
  define x :: rat where "x = of_int n"
  have x: "1 \<le> x" "0 < x" using n by (simp_all add: x_def)
  have xle: "x \<le> 2 ^ 53" unfolding x_def using assms(2) by (metis of_int_le_iff of_int_numeral of_int_power)
  note b = ilog2_bounds [OF x(2)]
  have "(2::rat) powi 0 < 2 powi (ilog2 x + 1)" using b x(1) by simp
  then have e0: "0 \<le> ilog2 x" using pow2_less_imp_less by fastforce
  have "(2::rat) powi (ilog2 x) < 2 powi 54" using b xle by (simp add: power_int_def power_one_over)
  then have e53: "ilog2 x \<le> 53" using pow2_less_imp_less by fastforce
  have mx: "max (ilog2 x) (- 1022) = ilog2 x" using e0 by simp
  have "\<exists>k. x = of_int k * 2 powi (ilog2 x - 52)"
  proof (cases "ilog2 x = 53")
    case True
    with b have "2 ^ 53 \<le> x" by (simp add: power_int_def power_one_over)
    with xle have "x = 2 ^ 53" by simp
    then have "x = of_int (2 ^ 52) * 2 powi (ilog2 x - 52)" using True by simp
    then show ?thesis by blast
  next
    case False
    with e53 have le: "ilog2 x \<le> 52" by simp
    have "(2::rat) powi (ilog2 x - 52) = 1 / 2 ^ nat (52 - ilog2 x)"
      using le by (cases "ilog2 x = 52") (simp_all add: power_int_def field_simps)
    then have "x = of_int (n * 2 ^ nat (52 - ilog2 x)) * 2 powi (ilog2 x - 52)"
      by (simp add: x_def)
    then show ?thesis by blast
  qed
  then obtain k where "x = of_int k * 2 powi (max (ilog2 x) (- 1022) - (53 - 1))"
    using mx by auto
  then have r: "round_pos 53 (- 1022) x = x" by (rule round_pos_exact)
  have "x < 2 powi 1024" using xle by (simp add: power_int_def) 
  then show ?thesis using r x(2) by (simp add: round_double_pos x_def [symmetric])
qed

lemma round_double_half:
  assumes "is_double d" and "0 < d" and "- 1021 \<le> ilog2 d"
  shows "round_double (d / 2) = Fin (d / 2)"
proof -
  note D = is_double_posD [OF assms(1,2)]
  have m: "max (ilog2 d) (- 1022) = ilog2 d" using assms(3) by simp
  obtain k where k: "d = of_int k * 2 powi (ilog2 d - 52)"
    using round_pos_fixed [OF D(1)] m by auto
  have h: "ilog2 (d / 2) = ilog2 d - 1" using assms(2) by (rule ilog2_half)
  have m2: "max (ilog2 (d / 2)) (- 1022) = ilog2 d - 1" using assms(3) h by simp
  have "(2::rat) powi (ilog2 d - 52) = 2 * 2 powi (ilog2 d - 1 - 52)"
    by (simp add: power_int_diff)
  with k have "d / 2 = of_int k * 2 powi (max (ilog2 (d / 2)) (- 1022) - (53 - 1))"
    unfolding m2 by simp
  then have "round_pos 53 (- 1022) (d / 2) = d / 2" by (rule round_pos_exact)
  moreover have "d / 2 < 2 powi 1024" using D(2) assms(2) by simp
  ultimately show ?thesis using assms(2) by (simp add: round_double_pos)
qed

lemma floor_round_double_half:
  assumes "is_double d" and "0 < d"
  shows "\<exists>p. round_double (d / 2) = Fin p \<and> \<lfloor>p\<rfloor> = \<lfloor>d / 2\<rfloor>"
proof (cases "- 1021 \<le> ilog2 d")
  case True
  with assms have "round_double (d / 2) = Fin (d / 2)" by (rule round_double_half)
  then show ?thesis by blast
next
  case False
  then have "ilog2 d + 1 \<le> - 1021" by simp
  then have "(2::rat) powi (ilog2 d + 1) \<le> 2 powi (- 1021)"
    by (intro power_int_increasing) simp_all
  with ilog2_bounds [OF assms(2)] have d: "d < 2 powi (- 1021)" by simp
  then have "d / 2 < 2 powi (- 1022 + 1)" using assms(2) by simp
  with assms(2) obtain p where p: "round_double (d / 2) = Fin p" "0 \<le> p" "p \<le> 2 powi (- 1022 + 1)"
    using round_double_bounded [of "d / 2" "- 1022"] by auto
  have small: "(2::rat) powi (- 1021) < 1" by (simp add: power_int_def field_simps)
  have "\<lfloor>p\<rfloor> = 0" using p small by (simp add: floor_eq_iff)
  moreover have "\<lfloor>d / 2\<rfloor> = 0" using d small assms(2) by (simp add: floor_eq_iff)
  ultimately show ?thesis using p(1) by simp
qed


lemma rhe_eqI:
  assumes "\<bar>y - of_int k\<bar> < 1 / 2"
  shows "round_half_even y = k"
proof (cases "of_int k \<le> y")
  case True
  with assms have "\<lfloor>y\<rfloor> = k" by (simp add: floor_eq_iff)
  with assms True show ?thesis by (simp add: round_half_even_def Let_def)
next
  case False
  with assms have "\<lfloor>y\<rfloor> = k - 1" by (simp add: floor_eq_iff)
  with assms False show ?thesis by (simp add: round_half_even_def Let_def)
qed

lemma rhe_tie:
  assumes "y = of_int k + 1 / 2"
  shows "round_half_even y = (if even k then k else k + 1)"
proof -
  have "\<lfloor>y\<rfloor> = k" using assms by (simp add: floor_eq_iff)
  with assms show ?thesis by (simp add: round_half_even_def Let_def)
qed

lemma round_to_finite:
  assumes "0 < x" and "2 powi e \<le> x" and "x < 2 powi (e + 1)"
    and "emin \<le> e" and "e < emax" and "1 \<le> prec"
  shows "round_to prec emin emax x =
           Fin (of_int (round_half_even (x / 2 powi (e - (prec - 1)))) * 2 powi (e - (prec - 1)))"
proof -
  have i: "ilog2 x = e" using assms(2,3) by (rule ilog2_eqI)
  then have m: "max (ilog2 x) emin = e" using assms(4) by simp
  have "round_pos prec emin x \<le> 2 powi (e + 1)"
    using assms(1,3,4,6) by (rule round_pos_le)
  also have "\<dots> < 2 powi (emax + 1)"
    using assms(5) by (intro power_int_strict_increasing) simp_all
  finally have "\<not> 2 powi (emax + 1) \<le> round_pos prec emin x" by simp
  then show ?thesis
    using assms(1) m by (simp add: round_to_def Let_def round_pos_def)
qed

lemma round_to_eqI:
  assumes "0 < x" and "2 powi e \<le> x" and "x < 2 powi (e + 1)"
    and "emin \<le> e" and "e < emax" and "1 \<le> prec"
    and "\<bar>x / 2 powi (e - (prec - 1)) - of_int k\<bar> < 1 / 2"
  shows "round_to prec emin emax x = Fin (of_int k * 2 powi (e - (prec - 1)))"
  using round_to_finite [OF assms(1-6)] rhe_eqI [OF assms(7)] by simp

lemma round_to_tieI:
  assumes "0 < x" and "2 powi e \<le> x" and "x < 2 powi (e + 1)"
    and "emin \<le> e" and "e < emax" and "1 \<le> prec"
    and "x / 2 powi (e - (prec - 1)) = of_int k + 1 / 2" and "even k"
  shows "round_to prec emin emax x = Fin (of_int k * 2 powi (e - (prec - 1)))"
  using round_to_finite [OF assms(1-6)] rhe_tie [OF assms(7)] assms(8) by simp

lemma round_pos_whole:
  assumes "2 ^ 53 \<le> x"
  shows "\<exists>k. round_pos 53 (- 1022) x = of_int k"
proof -
  have x0: "0 < x" using assms by (rule less_le_trans [rotated]) simp
  have "(2::rat) powi 53 \<le> x" using assms by (simp add: power_int_def)
  also have "x < 2 powi (ilog2 x + 1)" using ilog2_bounds [OF x0] by simp
  finally have "53 < ilog2 x + 1" by (rule pow2_less_imp_less)
  then have e: "53 \<le> ilog2 x" by simp
  define j where "j = nat (ilog2 x - 52)"
  have "ilog2 x - (53 - 1) = int j" using e by (simp add: j_def)
  then have q: "(2::rat) powi (ilog2 x - (53 - 1)) = of_int (2 ^ j)"
    by (simp add: power_int_def)
  have m: "max (ilog2 x) (- 1022) = ilog2 x" using e by simp
  have "round_pos 53 (- 1022) x
          = of_int (round_half_even (x / of_int (2 ^ j)) * 2 ^ j)"
    unfolding round_pos_def Let_def m q by simp
  then show ?thesis by blast
qed

lemma round_double_whole:
  assumes "0 \<le> n"
  shows "round_double (of_int n) = PosInf
       \<or> (\<exists>k. 0 \<le> k \<and> round_double (of_int n) = Fin (of_int k))"
proof (cases "n \<le> 2 ^ 53")
  case True
  then show ?thesis using assms round_double_int [of n] by blast
next
  case False
  then have big: "(2::rat) ^ 53 \<le> of_int n"
    by (metis linorder_not_le less_imp_le of_int_le_iff of_int_numeral of_int_power)
  then have pos: "(0::rat) < of_int n" by (rule less_le_trans [rotated]) simp
  obtain k where k: "round_pos 53 (- 1022) (of_int n :: rat) = of_int k"
    using round_pos_whole [OF big] by blast
  have "0 \<le> round_pos 53 (- 1022) (of_int n :: rat)"
    using round_pos_nonneg [of "of_int n" 53 "- 1022"] pos by simp
  then have "0 \<le> k" using k by simp
  then show ?thesis using k by (auto simp: round_double_pos [OF pos])
qed

subsection \<open>Doubles used in the examples\<close>

lemma is_double_int: "0 \<le> n \<Longrightarrow> n \<le> 2 ^ 53 \<Longrightarrow> is_double (of_int n)"
  by (simp add: is_double_def round_double_int)

lemma round_double_numerals:
  "round_double 0 = Fin 0"
  "round_double 1 = Fin 1"
  "round_double 3 = Fin 3"
  "round_double 5 = Fin 5"
  "round_double 7 = Fin 7"
  "round_double 10 = Fin 10"
  "round_double 75 = Fin 75"
  "round_double 125 = Fin 125"
  "round_double 127 = Fin 127"
  "round_double 134 = Fin 134"
  "round_double 135 = Fin 135"
  "round_double 3000000000 = Fin 3000000000"
  using round_double_int [of 0] round_double_int [of 1] round_double_int [of 3]
    round_double_int [of 5] round_double_int [of 7] round_double_int [of 10]
    round_double_int [of 75] round_double_int [of 125] round_double_int [of 127]
    round_double_int [of 134] round_double_int [of 135] round_double_int [of 3000000000]
  by simp_all

lemma round_double_half_literal: "round_double 0.5 = Fin (1 / 2)"
  unfolding round_double_def
  using round_to_eqI [of "0.5" "- 1" "- 1022" 1023 53 "2 ^ 52"]
  by (simp add: power_int_def power_one_over)

lemma round_double_fifth_literal: "round_double 0.2 = Fin (3602879701896397 / 2 ^ 54)"
  unfolding round_double_def
  using round_to_eqI [of "0.2" "- 3" "- 1022" 1023 53 "3602879701896397 * 2"]
  by (simp add: power_int_def power_one_over)

lemma round_double_fifth: "round_double (3602879701896397 / 2 ^ 54) = Fin (3602879701896397 / 2 ^ 54)"
  unfolding round_double_def
  using round_to_eqI [of "3602879701896397 / 2 ^ 54" "- 3" "- 1022" 1023 53 "3602879701896397 * 2"]
  by (simp add: power_int_def power_one_over)

lemma round_double_fifth_times_10: "round_double (3602879701896397 / 2 ^ 54 * 10) = Fin 2"
  unfolding round_double_def
  using round_to_eqI [of "3602879701896397 / 2 ^ 54 * 10" 1 "- 1022" 1023 53 "2 ^ 52"]
  by (simp add: power_int_def power_one_over)

lemma round_double_fifth_times_below_15:
  "round_double (3602879701896397 / 2 ^ 54 * (15 - 1 / 2 ^ 49)) = Fin 3"
  unfolding round_double_def
  using round_to_eqI [of "3602879701896397 / 2 ^ 54 * (15 - 1 / 2 ^ 49)" 1 "- 1022" 1023 53
      "3 * 2 ^ 51"]
  by (simp add: power_int_def power_one_over)

lemma round_double_below_15_literal: "round_double 14.999999999999998 = Fin (15 - 1 / 2 ^ 49)"
  unfolding round_double_def
  using round_to_eqI [of "14.999999999999998" 3 "- 1022" 1023 53 "15 * 2 ^ 49 - 1"]
  by (simp add: power_int_def power_one_over)

lemma round_double_below_15: "round_double (15 - 1 / 2 ^ 49) = Fin (15 - 1 / 2 ^ 49)"
  unfolding round_double_def
  using round_to_eqI [of "15 - 1 / 2 ^ 49" 3 "- 1022" 1023 53 "15 * 2 ^ 49 - 1"]
  by (simp add: power_int_def power_one_over)

lemma round_double_below_3_literal: "round_double 2.9999999 = Fin (6755399215875763 / 2 ^ 51)"
  unfolding round_double_def
  using round_to_eqI [of "2.9999999" 1 "- 1022" 1023 53 "6755399215875763"]
  by (simp add: power_int_def power_one_over)

lemma round_double_below_3:
  "round_double (6755399215875763 / 2 ^ 51) = Fin (6755399215875763 / 2 ^ 51)"
  unfolding round_double_def
  using round_to_eqI [of "6755399215875763 / 2 ^ 51" 1 "- 1022" 1023 53 "6755399215875763"]
  by (simp add: power_int_def power_one_over)

lemma round_single_below_3: "round_single (6755399215875763 / 2 ^ 51) = Fin 3"
  unfolding round_single_def
  using round_to_eqI [of "6755399215875763 / 2 ^ 51" 1 "- 126" 127 24 "3 * 2 ^ 22"]
  by (simp add: power_int_def power_one_over)

lemma round_double_3_halves: "round_double (3 / 2) = Fin (3 / 2)"
  unfolding round_double_def
  using round_to_eqI [of "3 / 2" 0 "- 1022" 1023 53 "3 * 2 ^ 51"]
  by (simp add: power_int_def power_one_over)

lemma round_double_2_53_plus_1: "round_double (2 ^ 53 + 1) = Fin (2 ^ 53)"
  unfolding round_double_def
  using round_to_tieI [of "2 ^ 53 + 1" 53 "- 1022" 1023 53 "2 ^ 52"]
  by (simp add: power_int_def power_one_over)

lemma round_double_2_60: "round_double (2 ^ 60) = Fin (2 ^ 60)"
  unfolding round_double_def
  using round_to_eqI [of "2 ^ 60" 60 "- 1022" 1023 53 "2 ^ 52"]
  by (simp add: power_int_def power_one_over)

lemma round_double_2_60_minus_50: "round_double (2 ^ 60 - 50) = Fin (2 ^ 60)"
  unfolding round_double_def
  using round_to_eqI [of "2 ^ 60 - 50" 59 "- 1022" 1023 53 "2 ^ 53"]
  by (simp add: power_int_def power_one_over)

lemmas round_double_evals =
  round_double_half_literal [simplified] round_double_fifth_literal [simplified]
  round_double_fifth [simplified] round_double_fifth_times_10 [simplified]
  round_double_fifth_times_below_15 [simplified] round_double_below_15_literal [simplified]
  round_double_below_15 [simplified] round_double_below_3_literal [simplified]
  round_double_below_3 [simplified] round_single_below_3 [simplified]
  round_double_2_60 [simplified] round_double_2_60_minus_50 [simplified]
  round_double_3_halves round_double_2_53_plus_1 [simplified]

subsection \<open>The reward computation on doubles\<close>

lemma rates_lookup:
  "map_of rates ''Walking'' = Some (Fin 1)"
  "map_of rates ''Cycling'' = Some (Fin (1 / 2))"
  "map_of rates ''Public Transport'' = Some (Fin (3602879701896397 / 2 ^ 54))"
  by (simp_all add: rates_def round_double_numerals round_double_evals)

lemma calculateTokens_Walking:
  assumes "is_double d"
  shows "calculateTokens ''Walking'' (Fin d) = Fin (of_int \<lfloor>d\<rfloor>)"
  using assms by (simp add: calculateTokens_def rates_lookup is_double_def)

lemma calculateTokens_Cycling:
  assumes "is_double d" and "0 < d"
  shows "calculateTokens ''Cycling'' (Fin d) = Fin (of_int \<lfloor>d / 2\<rfloor>)"
proof -
  obtain p where "round_double (d / 2) = Fin p" "\<lfloor>p\<rfloor> = \<lfloor>d / 2\<rfloor>"
    using floor_round_double_half [OF assms] by blast
  then show ?thesis by (simp add: calculateTokens_def rates_lookup)
qed

lemma calculateTokens_Public_Transport:
  assumes "is_double d" and "0 < d"
  shows "\<exists>p. round_double (3602879701896397 / 2 ^ 54 * d) = Fin p \<and> 0 \<le> p
           \<and> calculateTokens ''Public Transport'' (Fin d) = Fin (of_int \<lfloor>p\<rfloor>)"
proof -
  let ?r = "3602879701896397 / 2 ^ 54 :: rat"
  have d: "d < 2 powi 1024" using is_double_posD [OF assms] by simp
  have r: "0 < ?r" "?r < 1 / 4" by simp_all
  have "?r * d < 1 / 4 * d" using r(2) assms(2) by (rule mult_strict_right_mono)
  also have "\<dots> < 1 / 4 * 2 powi 1024" using d by simp
  also have "\<dots> = 2 powi 1022" by (simp add: power_int_diff [of 2 1024 2, simplified])
  finally have "?r * d < 2 powi (1021 + 1)" by simp
  moreover have "0 < ?r * d" using r(1) assms(2) by simp
  ultimately obtain p where "round_double (?r * d) = Fin p" "0 \<le> p"
    using round_double_bounded [of "?r * d" 1021] by auto
  then show ?thesis by (auto simp: calculateTokens_def rates_lookup)
qed

lemma calculateTokens_values:
  "calculateTokens ''Walking'' (Fin 10) = Fin 10"
  "calculateTokens ''Cycling'' (Fin 10) = Fin 5"
  "calculateTokens ''Public Transport'' (Fin 10) = Fin 2"
  "calculateTokens ''Cycling'' (Fin 3) = Fin 1"
  "calculateTokens ''Public Transport'' (Fin 1) = Fin 0"
  "calculateTokens ''Walking'' (Fin 3000000000) = Fin 3000000000"
  "calculateTokens ''Walking'' (Fin 3) = Fin 3"
  "calculateTokens ''Walking'' (Fin (6755399215875763 / 2 ^ 51)) = Fin 2"
  "calculateTokens ''Public Transport'' (Fin (15 - 1 / 2 ^ 49)) = Fin 3"
  by (simp_all add: calculateTokens_def rates_lookup round_double_numerals
        round_double_evals floor_eq_iff)

lemma calculateTokens_cases:
  "calculateTokens m d = NaN \<or> calculateTokens m d = PosInf \<or> calculateTokens m d = NegInf
   \<or> (\<exists>x k. d = Fin x \<and> calculateTokens m d = Fin (of_int k))"
proof (cases "map_of rates m")
  case None
  then show ?thesis by (simp add: calculateTokens_def)
next
  case (Some r)
  show ?thesis
  proof (cases r)
    case (Fin a)
    show ?thesis
    proof (cases d)
      case (Fin x)
      then show ?thesis
        using Some \<open>r = Fin a\<close> by (cases "round_double (a * x)") (simp_all add: calculateTokens_def)
    qed (use Some Fin in \<open>simp_all add: calculateTokens_def infinity_times_def\<close>)
  next
    case PosInf
    then show ?thesis
      using Some by (cases d) (simp_all add: calculateTokens_def infinity_times_def)
  next
    case NegInf
    then show ?thesis
      using Some by (cases d) (simp_all add: calculateTokens_def infinity_times_def)
  next
    case NaN
    then show ?thesis using Some by (simp add: calculateTokens_def)
  qed
qed

lemma calculateTokens_gt0:
  assumes "gt0 (calculateTokens m d)"
  shows "calculateTokens m d = PosInf \<or> (\<exists>x k. d = Fin x \<and> calculateTokens m d = Fin (of_int k))"
  using assms calculateTokens_cases [of m d] by auto

lemma gt0_not_le0: "gt0 d \<Longrightarrow> \<not> le0 d"
  by (cases d) auto

subsection \<open>Lists and strings\<close>

lemma update_mem_cases:
  "(a, b) \<in> set (AList.update k v al) \<Longrightarrow> b = v \<or> (a, b) \<in> set al"
  by (induction al) (auto split: if_splits)

lemma values_update_mem: "v \<in> snd ` set (AList.update k v al)"
  by (induction al) (auto simp: image_iff)

lemma find_values_update:
  "P v \<Longrightarrow> \<forall>x \<in> snd ` set al. \<not> P x \<Longrightarrow> find P (map snd (AList.update k v al)) = Some v"
  by (induction al) auto

lemma lower_char_idem: "lower_char (lower_char c) = lower_char c"
  by (simp add: lower_char_def Let_def)

lemma toLowerCase_idem: "toLowerCase (toLowerCase a) = toLowerCase a"
  by (simp add: toLowerCase_def lower_char_idem)

lemma toLowerCase_Nil_iff: "toLowerCase a = toLowerCase b \<Longrightarrow> a = [] \<longleftrightarrow> b = []"
  by (metis length_map length_0_conv toLowerCase_def)

lemma toLowerCase_example: "toLowerCase ''0xAbC1'' = ''0xabc1''"
  by code_simp

subsection \<open>The branches of submitTrip\<close>

lemma begin_minting: "minting s \<Longrightarrow> submitTrip_begin s = (s, Ignored)"
  by (simp add: submitTrip_begin_def)

lemma begin_mint:
  assumes "\<not> minting s" "account s = Some a" "a \<noteq> []" "provider s"
    and "form_distance (tripForm s) = Some d" "\<not> le0 d"
    and "gt0 (calculateTokens (form_mode (tripForm s)) d)"
  shows "submitTrip_begin s =
           (s\<lparr>minting := True\<rparr>,
            Minting \<lparr>sub_account = a, sub_mode = form_mode (tripForm s), sub_distance = d,
                     sub_tokens = calculateTokens (form_mode (tripForm s)) d\<rparr>)"
  using assms by (simp add: submitTrip_begin_def)

lemma begin_no_tokens:
  assumes "\<not> minting s" "account s = Some a" "a \<noteq> []"
    and "form_distance (tripForm s) = Some d" "\<not> le0 d"
    and "\<not> gt0 (calculateTokens (form_mode (tripForm s)) d)"
  shows "submitTrip_begin s =
           (s\<lparr>minting := False\<rparr>, Shown (TripSubmissionFailed ErrorLoggingTrip))"
  using assms by (simp add: submitTrip_begin_def)

lemma submitTrip_Ignored:
  "submitTrip_begin s = (s1, Ignored) \<Longrightarrow>
   submitTrip storage accepts delivered m b u i n s srv =
     \<lparr>client = s1, server = srv, toasts = [], mint_result = None, request = None,
      persisted = None\<rparr>"
  by (simp add: submitTrip_def)

lemma submitTrip_Shown:
  "submitTrip_begin s = (s1, Shown t) \<Longrightarrow>
   submitTrip storage accepts delivered m b u i n s srv =
     \<lparr>client = s1, server = srv, toasts = [t], mint_result = None, request = None,
      persisted = None\<rparr>"
  by (simp add: submitTrip_def)

lemma submitTrip_Rejected:
  "submitTrip_begin s = (s1, Minting sub) \<Longrightarrow>
   submitTrip storage accepts delivered (Rejected cause) b u i n s srv =
     \<lparr>client = s1\<lparr>minting := False\<rparr>, server = srv,
      toasts = [TripSubmissionFailed (BlockchainMintingFailed cause)],
      mint_result = Some (Rejected cause), request = None, persisted = None\<rparr>"
  by (simp add: submitTrip_def submitTrip_mint_rejected_def)

lemma submitTrip_Resolved_delivered:
  "submitTrip_begin s = (s1, Minting sub) \<Longrightarrow>
   submitTrip storage accepts True (Resolved txHash) b u i n s srv =
     \<lparr>client = fst (submitTrip_finish sub txHash (fst (fetchBalance b s1))),
      server = fst (post_trips storage accepts srv (trip_request_of sub) u i n),
      toasts = snd (fetchBalance b s1)
        @ snd (snd (submitTrip_finish sub txHash (fst (fetchBalance b s1)))),
      mint_result = Some (Resolved txHash),
      request = Some (trip_request_of sub),
      persisted = created_trip (snd (post_trips storage accepts srv (trip_request_of sub) u i n))\<rparr>"
  by (simp add: submitTrip_def submitTrip_finish_def split: prod.splits option.splits)

lemma submitTrip_Resolved_lost:
  "submitTrip_begin s = (s1, Minting sub) \<Longrightarrow>
   submitTrip storage accepts False (Resolved txHash) b u i n s srv =
     \<lparr>client = fst (submitTrip_finish sub txHash (fst (fetchBalance b s1))),
      server = srv,
      toasts = snd (fetchBalance b s1)
        @ snd (snd (submitTrip_finish sub txHash (fst (fetchBalance b s1)))),
      mint_result = Some (Resolved txHash),
      request = Some (trip_request_of sub),
      persisted = None\<rparr>"
  by (simp add: submitTrip_def submitTrip_finish_def split: prod.splits option.splits)

lemma submitTrip_Resolved_client:
  "submitTrip_begin s = (s1, Minting sub) \<Longrightarrow>
   client (submitTrip storage accepts delivered (Resolved txHash) b u i n s srv)
     = fst (submitTrip_finish sub txHash (fst (fetchBalance b s1)))
   \<and> mint_result (submitTrip storage accepts delivered (Resolved txHash) b u i n s srv)
     = Some (Resolved txHash)
   \<and> request (submitTrip storage accepts delivered (Resolved txHash) b u i n s srv)
     = Some (trip_request_of sub)"
  by (cases delivered) (simp_all add: submitTrip_Resolved_delivered submitTrip_Resolved_lost)

lemma request_finish: "fst (snd (submitTrip_finish sub txHash s)) = trip_request_of sub"
  by (simp add: submitTrip_finish_def split: option.splits)

lemma balance_finish:
  "balance (fst (submitTrip_finish sub txHash s)) = balance s"
  by (simp add: submitTrip_finish_def split: option.splits)

lemma balance_fetchBalance:
  "balance (fst (fetchBalance b s)) =
     (case b of Resolved wei \<Rightarrow> round_double (of_nat (wei div 10 ^ 18))
      | Rejected cause \<Rightarrow> balance s)"
  by (simp add: fetchBalance_def split: settled.splits)

lemma begin_balance: "balance (fst (submitTrip_begin s)) = balance s"
  by (simp add: submitTrip_begin_def Let_def split: option.splits)

lemma begin_not_Ignored: "\<not> minting s \<Longrightarrow> snd (submitTrip_begin s) \<noteq> Ignored"
  by (simp add: submitTrip_begin_def Let_def split: option.splits)


subsection \<open>The server's answer to a request\<close>

lemma post_trips_Mem_valid:
  assumes "a \<noteq> []" and "accepts m x k"
  shows "\<exists>srv' t. post_trips MemStorage_impl accepts srv
           \<lparr>req_walletAddress = a, req_mode = JString m, req_distance = JNumber x,
            req_tokensEarned = JNumber k\<rparr> u i n = (srv', (200, TripJson t))
         \<and> t \<in> snd ` set (trips srv') \<and> mode t = m \<and> distance t = x \<and> tokensEarned t = k"
  using assms values_update_mem
  by (cases "Mem_getUserByWalletAddress srv a")
     (simp_all add: post_trips_def MemStorage_impl_def Mem_createUser_def Mem_createTrip_def
        Let_def)





subsection \<open>Invariants of the transition system\<close>

lemmas handler_defs = submitTrip_begin_def submitTrip_mint_rejected_def submitTrip_finish_def
  fetchBalance_def connectWallet_def redeemReward_def

lemmas event_splits = option.splits if_splits list.splits awaiting.splits settled.splits
  prod.splits

lemma step_suspended_minting:
  "length (suspended w) \<le> 1 \<and> (minting (ui w) \<longleftrightarrow> suspended w \<noteq> []) \<Longrightarrow>
   length (suspended (step e w)) \<le> 1
     \<and> (minting (ui (step e w)) \<longleftrightarrow> suspended (step e w) \<noteq> [])"
  by (cases e) (auto simp: handler_defs Let_def split: event_splits)

lemma reachable_suspended_minting:
  "reachable w \<Longrightarrow> length (suspended w) \<le> 1 \<and> (minting (ui w) \<longleftrightarrow> suspended w \<noteq> [])"
proof (induction rule: reachable.induct)
  case reachable_init
  show ?case by (simp add: initial_world_def initial_home_def)
next
  case (reachable_step w e)
  from reachable_step.IH show ?case by (rule step_suspended_minting)
qed

lemma step_provider:
  "(truthy (account (ui w)) \<longrightarrow> provider (ui w)) \<Longrightarrow>
   truthy (account (ui (step e w))) \<longrightarrow> provider (ui (step e w))"
  by (cases e) (auto simp: handler_defs Let_def split: event_splits)

lemma reachable_provider: "reachable w \<Longrightarrow> truthy (account (ui w)) \<longrightarrow> provider (ui w)"
proof (induction rule: reachable.induct)
  case reachable_init
  show ?case by (simp add: initial_world_def initial_home_def)
next
  case (reachable_step w e)
  from reachable_step.IH show ?case by (rule step_provider)
qed

lemma ge_round_double_of_nat: "ge (round_double (of_nat n)) (Fin 0)"
  using round_double_nonneg [of "of_nat n"] by auto

lemma ge_minus: "ge a (Fin c) \<Longrightarrow> ge (minus a (Fin c)) (Fin 0)"
proof (cases a)
  case (Fin x)
  assume "ge a (Fin c)"
  with Fin have "0 \<le> x - c" by simp
  then have "ge (round_double (x - c)) (Fin 0)"
    using round_double_nonneg [of "x - c"] by auto
  with Fin show ?thesis by simp
qed simp_all

lemma balance_fetchBalance_nonneg:
  "ge (balance s) (Fin 0) \<Longrightarrow> ge (balance (fst (fetchBalance reply s))) (Fin 0)"
  by (cases reply) (simp_all add: fetchBalance_def ge_round_double_of_nat)

lemma redeemReward_nonneg:
  "\<not> redeeming s \<Longrightarrow> ge (balance s) (Fin 0) \<Longrightarrow>
   \<not> redeeming (fst (redeemReward r rnd s)) \<and> ge (balance (fst (redeemReward r rnd s))) (Fin 0)"
  by (simp add: redeemReward_def Let_def ge_minus)

lemma step_redeeming_balance:
  assumes "\<not> redeeming (ui w) \<and> ge (balance (ui w)) (Fin 0)"
  shows "\<not> redeeming (ui (step e w)) \<and> ge (balance (ui (step e w))) (Fin 0)"
proof (cases e)
  case (Connect a reply)
  then show ?thesis
    using assms balance_fetchBalance_nonneg [of "(ui w)\<lparr>account := Some a, provider := True\<rparr>" reply]
    by (cases reply) (simp_all add: connectWallet_def fetchBalance_def)
next
  case Submit
  then show ?thesis
    using assms by (auto simp: submitTrip_begin_def Let_def split: event_splits)
next
  case (MintSettled reply)
  then show ?thesis
    using assms by (auto simp: submitTrip_mint_rejected_def split: event_splits)
next
  case (BalanceSettled reply)
  then show ?thesis
    using assms balance_fetchBalance_nonneg [of "ui w" reply]
    by (cases reply)
       (auto simp: fetchBalance_def submitTrip_finish_def split: list.splits awaiting.splits
          option.splits)
next
  case (Redeem r rnd)
  then show ?thesis using assms redeemReward_nonneg [of "ui w" r rnd] by simp
qed (use assms in simp_all)

lemma reachable_redeeming_balance:
  "reachable w \<Longrightarrow> \<not> redeeming (ui w) \<and> ge (balance (ui w)) (Fin 0)"
proof (induction rule: reachable.induct)
  case reachable_init
  show ?case by (simp add: initial_world_def initial_home_def)
next
  case (reachable_step w e)
  from reachable_step.IH show ?case by (rule step_redeeming_balance)
qed

lemma minus_whole:
  assumes "a = PosInf \<or> (\<exists>b. 0 \<le> b \<and> a = Fin (of_int b))" and "ge a (Fin (of_int c))"
  shows "minus a (Fin (of_int c)) = PosInf
       \<or> (\<exists>b. 0 \<le> b \<and> minus a (Fin (of_int c)) = Fin (of_int b))"
proof (cases "a = PosInf")
  case True
  then show ?thesis by simp
next
  case False
  then obtain b where b: "0 \<le> b" "a = Fin (of_int b)" using assms(1) by blast
  then have "c \<le> b" using assms(2) by simp
  then have "0 \<le> b - c" by simp
  from round_double_whole [OF this] b(2) show ?thesis by simp
qed

lemma step_balance_whole:
  assumes "balance (ui w) = PosInf \<or> (\<exists>b. 0 \<le> b \<and> balance (ui w) = Fin (of_int b))"
  shows "balance (ui (step e w)) = PosInf
       \<or> (\<exists>b. 0 \<le> b \<and> balance (ui (step e w)) = Fin (of_int b))"
proof -
  have fetch: "balance (fst (fetchBalance reply s)) = PosInf
       \<or> (\<exists>b. 0 \<le> b \<and> balance (fst (fetchBalance reply s)) = Fin (of_int b))"
    if "balance s = PosInf \<or> (\<exists>b. 0 \<le> b \<and> balance s = Fin (of_int b))" for reply s
  proof (cases reply)
    case (Resolved wei)
    then show ?thesis
      using round_double_whole [of "int (wei div 10 ^ 18)"] by (simp add: fetchBalance_def)
  next
    case (Rejected cause)
    then show ?thesis using that by (simp add: fetchBalance_def)
  qed
  show ?thesis
  proof (cases e)
    case (Connect a reply)
    then show ?thesis
      using assms fetch [of "(ui w)\<lparr>account := Some a, provider := True\<rparr>" reply]
      by (simp add: connectWallet_def split_beta)
  next
    case Submit
    then show ?thesis
      using assms begin_balance [of "ui w"]
      by (cases "submitTrip_begin (ui w)"; cases "snd (submitTrip_begin (ui w))") auto
  next
    case (MintSettled reply)
    then show ?thesis
      using assms by (auto simp: submitTrip_mint_rejected_def split: event_splits)
  next
    case (BalanceSettled reply)
    then show ?thesis
      using assms fetch [of "ui w" reply]
      by (auto simp: split_beta balance_finish split: list.splits awaiting.splits)
  next
    case (Redeem r rnd)
    then show ?thesis
      using assms minus_whole [of "balance (ui w)" "cost r"]
      by (auto simp: redeemReward_def Let_def)
  qed (use assms in simp_all)
qed

lemma reachable_balance_whole:
  "reachable w \<Longrightarrow>
     balance (ui w) = PosInf \<or> (\<exists>b. 0 \<le> b \<and> balance (ui w) = Fin (of_int b))"
proof (induction rule: reachable.induct)
  case reachable_init
  have "balance (ui initial_world) = Fin (of_int 0)"
    by (simp add: initial_world_def initial_home_def)
  then show ?case by blast
next
  case (reachable_step w e)
  from reachable_step.IH show ?case by (rule step_balance_whole)
qed

lemma reachable_idle_not_Ignored:
  "reachable w \<Longrightarrow> suspended w = [] \<Longrightarrow> snd (submitTrip_begin (ui w)) \<noteq> Ignored"
  using reachable_suspended_minting [of w] by (simp add: begin_not_Ignored)



subsection \<open>Redemption\<close>

lemma REWARDS_cost_pos: "r \<in> set REWARDS \<Longrightarrow> 0 < cost r"
  by (auto simp: REWARDS_def)

lemma redeemReward_enough:
  assumes "\<not> redeeming s" "0 < cost r" "balance s = Fin (of_int b)" "cost r \<le> b" "b \<le> 2 ^ 53"
  shows "redeemReward r rnd s =
       (s\<lparr>balance := Fin (of_int (b - cost r))\<rparr>, [RedeemSuccess (''BENGALURU-GREEN-'' @ rnd)])"
proof -
  have "round_double (of_int (b - cost r)) = Fin (of_int (b - cost r))"
    using assms by (intro round_double_int) auto
  then have "round_double (of_int b - of_int (cost r)) = Fin (of_int b - of_int (cost r))"
    by simp
  then show ?thesis
    using assms by (cases s) (simp add: redeemReward_def Let_def)
qed

lemma redeemReward_short:
  "\<not> redeeming s \<Longrightarrow> balance s = Fin (of_int b) \<Longrightarrow> b < cost r \<Longrightarrow>
     redeemReward r rnd s = (s, [InsufficientBalance])"
  by (cases s) (simp add: redeemReward_def Let_def)

subsection \<open>The example worlds\<close>

lemma connected_world_eq:
  "connected_world =
     \<lparr>ui = \<lparr>account = Some ''0xAbC1'', balance = Fin 125, loading = False, redeeming = False,
             minting = False, provider = True, showTripModal = False,
             tripForm = \<lparr>form_mode = ''Walking'', form_distance = None\<rparr>\<rparr>,
      suspended = [], sent = []\<rparr>"
  by (simp add: connected_world_def initial_world_def initial_home_def emptyForm_def
        connectWallet_def fetchBalance_def round_double_numerals)

lemma walking_world_eq:
  "walking_world =
     \<lparr>ui = \<lparr>account = Some ''0xAbC1'', balance = Fin 125, loading = False, redeeming = False,
             minting = False, provider = True, showTripModal = False,
             tripForm = \<lparr>form_mode = ''Walking'', form_distance = Some (Fin 10)\<rparr>\<rparr>,
      suspended = [], sent = []\<rparr>"
  by (simp add: walking_world_def connected_world_eq)

lemma transit_world_eq:
  "transit_world =
     \<lparr>ui = \<lparr>account = Some ''0xAbC1'', balance = Fin 125, loading = False, redeeming = False,
             minting = False, provider = True, showTripModal = False,
             tripForm = \<lparr>form_mode = ''Public Transport'', form_distance = Some (Fin 1)\<rparr>\<rparr>,
      suspended = [], sent = []\<rparr>"
  by (simp add: transit_world_def connected_world_eq)


lemma long_walk_world_eq:
  "long_walk_world =
     \<lparr>ui = \<lparr>account = Some ''0xAbC1'', balance = Fin 125, loading = False, redeeming = False,
             minting = False, provider = True, showTripModal = False,
             tripForm = \<lparr>form_mode = ''Walking'', form_distance = Some (Fin 3000000000)\<rparr>\<rparr>,
      suspended = [], sent = []\<rparr>"
  by (simp add: long_walk_world_def connected_world_eq)

lemma minting_world_eq:
  "minting_world =
     \<lparr>ui = \<lparr>account = Some ''0xAbC1'', balance = Fin 125, loading = False, redeeming = False,
             minting = True, provider = True, showTripModal = False,
             tripForm = \<lparr>form_mode = ''Walking'', form_distance = Some (Fin 10)\<rparr>\<rparr>,
      suspended = [(\<lparr>sub_account = ''0xAbC1'', sub_mode = ''Walking'', sub_distance = Fin 10,
                     sub_tokens = Fin 10\<rparr>, AwaitingMint)],
      sent = []\<rparr>"
  by (simp add: minting_world_def walking_world_eq submitTrip_begin_def calculateTokens_values
        Let_def)


lemma rich_world_eq:
  "rich_world =
     \<lparr>ui = \<lparr>account = Some ''0xAbC1'', balance = Fin (2 ^ 60), loading = False,
             redeeming = False, minting = False, provider = True, showTripModal = False,
             tripForm = \<lparr>form_mode = ''Walking'', form_distance = None\<rparr>\<rparr>,
      suspended = [], sent = []\<rparr>"
  by (simp add: rich_world_def initial_world_def initial_home_def emptyForm_def
        connectWallet_def fetchBalance_def round_double_evals)

lemma reachable_connected_world: "reachable connected_world"
  unfolding connected_world_def by (intro reachable.intros)

lemma reachable_walking_world: "reachable walking_world"
  unfolding walking_world_def by (intro reachable.intros reachable_connected_world)

lemma reachable_transit_world: "reachable transit_world"
  unfolding transit_world_def by (intro reachable.intros reachable_connected_world)

lemma reachable_short_walk_world: "reachable short_walk_world"
  unfolding short_walk_world_def by (intro reachable.intros reachable_connected_world)

lemma reachable_long_walk_world: "reachable long_walk_world"
  unfolding long_walk_world_def by (intro reachable.intros reachable_connected_world)

lemma reachable_minting_world: "reachable minting_world"
  unfolding minting_world_def by (intro reachable.intros reachable_walking_world)


lemma reachable_rich_world: "reachable rich_world"
  unfolding rich_world_def by (intro reachable.intros)

lemmas run_defs = submitTrip_def submitTrip_begin_def fetchBalance_def submitTrip_finish_def
  submitTrip_mint_rejected_def trip_request_of_def post_trips_def MemStorage_impl_def
  Mem_getUserByWalletAddress_def Mem_createUser_def Mem_createTrip_def Mem_empty_def
  types_only_def Let_def calculateTokens_values round_double_numerals

lemmas Db_run_defs = DatabaseStorage_impl_def Db_getUserByWalletAddress_def Db_createUser_def
  insert_user_onConflictDoNothing_def Db_createTrip_def Db_empty_def int4_def
  toLowerCase_example round_double_evals

subsection \<open>The flow as three transitions\<close>

text \<open>From a world with no suspended call, the click, the settling of the mint and the
  settling of the balance read lead to the page state that \<open>submitTrip\<close> computes in one
  go, and send the request it sends.\<close>

lemma submitTrip_as_steps:
  assumes "suspended w = []"
  shows "ui (step (BalanceSettled b) (step (MintSettled m) (step Submit w)))
           = client (submitTrip storage accepts delivered m b u i n (ui w) srv)
       \<and> suspended (step (BalanceSettled b) (step (MintSettled m) (step Submit w))) = []
       \<and> sent (step (BalanceSettled b) (step (MintSettled m) (step Submit w)))
           = sent w @ (case request (submitTrip storage accepts delivered m b u i n (ui w) srv) of
                         Some req \<Rightarrow> [req] | None \<Rightarrow> [])"
proof (cases "submitTrip_begin (ui w)")
  case (Pair s1 res)
  show ?thesis
  proof (cases res)
    case Ignored
    with Pair assms show ?thesis by (simp add: submitTrip_Ignored)
  next
    case (Shown t)
    with Pair assms show ?thesis by (simp add: submitTrip_Shown)
  next
    case (Minting sub)
    show ?thesis
    proof (cases m)
      case (Rejected cause)
      with Pair Minting assms show ?thesis
        by (simp add: submitTrip_Rejected submitTrip_mint_rejected_def)
    next
      case (Resolved tx)
      with Pair Minting assms show ?thesis
        by (simp add: submitTrip_Resolved_client split_beta request_finish)
    qed
  qed
qed

subsection \<open>Finding or creating a user\<close>

lemma Mem_find_or_create:
  assumes "a \<noteq> []" "toLowerCase b = toLowerCase a"
  shows "\<exists>st' u. post_auth_wallet MemStorage_impl st a i n = (st', (200, UserJson u))
           \<and> Mem_getUserByWalletAddress st' b = Some u
           \<and> post_auth_wallet MemStorage_impl st' b i' n' = (st', (200, UserJson u))"
proof (cases "Mem_getUserByWalletAddress st a")
  case None
  then have no: "\<forall>x \<in> snd ` set (users st). toLowerCase (walletAddress x) \<noteq> toLowerCase a"
    by (auto simp: Mem_getUserByWalletAddress_def find_None_iff)
  let ?u = "\<lparr>user_id = i, walletAddress = a, user_createdAt = n\<rparr>"
  have "find (\<lambda>u. toLowerCase (walletAddress u) = toLowerCase a)
          (map snd (AList.update i ?u (users st))) = Some ?u"
    using no by (intro find_values_update) auto
  moreover have "b \<noteq> []" using assms toLowerCase_Nil_iff by blast
  ultimately show ?thesis
    using None assms
    by (simp add: post_auth_wallet_def MemStorage_impl_def Mem_createUser_def
          Mem_getUserByWalletAddress_def Let_def)
next
  case (Some u)
  moreover have "b \<noteq> []" using assms toLowerCase_Nil_iff by blast
  ultimately show ?thesis
    using assms
    by (simp add: post_auth_wallet_def MemStorage_impl_def Mem_getUserByWalletAddress_def)
qed

lemma Db_find_or_create:
  assumes "a \<noteq> []" "toLowerCase b = toLowerCase a"
  shows "\<exists>db' u. post_auth_wallet DatabaseStorage_impl db a i n = (db', (200, UserJson u))
           \<and> walletAddress u = toLowerCase a
           \<and> Db_getUserByWalletAddress db' b = Some u
           \<and> post_auth_wallet DatabaseStorage_impl db' b i' n' = (db', (200, UserJson u))"
proof -
  have b: "b \<noteq> []" using assms toLowerCase_Nil_iff by blast
  show ?thesis
  proof (cases "filter (\<lambda>u. walletAddress u = toLowerCase a) (users_table db)")
    case Nil
    then have "find (\<lambda>u. walletAddress u = toLowerCase a) (users_table db) = None"
      by (auto simp: find_None_iff filter_empty_conv)
    with Nil show ?thesis
      using assms b
      by (simp add: post_auth_wallet_def DatabaseStorage_impl_def Db_getUserByWalletAddress_def
            Db_createUser_def insert_user_onConflictDoNothing_def)
  next
    case (Cons u us)
    then have "u \<in> set (filter (\<lambda>u. walletAddress u = toLowerCase a) (users_table db))"
      by simp
    then have "walletAddress u = toLowerCase a" by simp
    with Cons show ?thesis
      using assms b
      by (simp add: post_auth_wallet_def DatabaseStorage_impl_def Db_getUserByWalletAddress_def)
  qed
qed

section \<open>The reward computation\<close>

text \<open>
  Claim C3, as amended. \<open>calculateTokens\<close> works on doubles. For every distance
  \<open>d > 0\<close> that is a double, Walking returns \<open>floor (1.0 * d)\<close> and Cycling returns
  \<open>floor (0.5 * d)\<close>, the products being exact or rounded without crossing a whole
  number; Public Transport returns the floor of the double product of \<open>d\<close> and the
  double nearest to 0.2. Each result is a non-negative whole number. Walking/10 gives
  10, Cycling/10 gives 5, Public Transport/10 gives 2 and Cycling/3 gives 1.
\<close>

theorem calculateTokens_rate_table:
  assumes "is_double d" and "0 < d"
  shows "calculateTokens ''Walking'' (Fin d) = Fin (of_int \<lfloor>1.0 * d\<rfloor>) \<and> 0 \<le> \<lfloor>1.0 * d\<rfloor>
   \<and> calculateTokens ''Cycling'' (Fin d) = Fin (of_int \<lfloor>0.5 * d\<rfloor>) \<and> 0 \<le> \<lfloor>0.5 * d\<rfloor>
   \<and> (\<exists>rate p. round_double 0.2 = Fin rate \<and> round_double (rate * d) = Fin p
         \<and> calculateTokens ''Public Transport'' (Fin d) = Fin (of_int \<lfloor>p\<rfloor>) \<and> 0 \<le> \<lfloor>p\<rfloor>)
   \<and> calculateTokens ''Walking'' (Fin 10) = Fin 10
   \<and> calculateTokens ''Cycling'' (Fin 10) = Fin 5
   \<and> calculateTokens ''Public Transport'' (Fin 10) = Fin 2
   \<and> calculateTokens ''Cycling'' (Fin 3) = Fin 1"
proof -
  have w: "calculateTokens ''Walking'' (Fin d) = Fin (of_int \<lfloor>1.0 * d\<rfloor>)"
    using calculateTokens_Walking [OF assms(1)] by simp
  have "0.5 * d = d / 2" by simp
  then have c: "calculateTokens ''Cycling'' (Fin d) = Fin (of_int \<lfloor>0.5 * d\<rfloor>)"
    using calculateTokens_Cycling [OF assms] by simp
  have nn: "0 \<le> \<lfloor>1.0 * d\<rfloor>" "0 \<le> \<lfloor>0.5 * d\<rfloor>" using assms(2) by simp_all
  obtain p where p: "round_double (3602879701896397 / 2 ^ 54 * d) = Fin p" "0 \<le> p"
    "calculateTokens ''Public Transport'' (Fin d) = Fin (of_int \<lfloor>p\<rfloor>)"
    using calculateTokens_Public_Transport [OF assms] by blast
  have "0 \<le> \<lfloor>p\<rfloor>" using p(2) by simp
  with p round_double_fifth_literal
  have t: "\<exists>rate p. round_double 0.2 = Fin rate \<and> round_double (rate * d) = Fin p
         \<and> calculateTokens ''Public Transport'' (Fin d) = Fin (of_int \<lfloor>p\<rfloor>) \<and> 0 \<le> \<lfloor>p\<rfloor>"
    by blast
  from w c nn t calculateTokens_values(1-4) show ?thesis by blast
qed

theorem calculateTokens_rate_table_witness:
  "is_double 7 \<and> (0::rat) < 7 \<and> calculateTokens ''Walking'' (Fin 7) = Fin 7
     \<and> calculateTokens ''Cycling'' (Fin 7) = Fin 3"
proof -
  have d: "is_double 7" by (simp add: is_double_def round_double_numerals)
  have "\<lfloor>0.5 * 7 :: rat\<rfloor> = 3" by (simp add: floor_eq_iff)
  with calculateTokens_rate_table [OF d] d show ?thesis by simp
qed

text \<open>
  Claim C3 as stated says \<open>floor (0.2 * d)\<close> for Public Transport. The literal
  \<open>14.999999999999998\<close> is the double \<open>15 - 2^-49\<close>; one fifth of it is below 3, and
  its product with the double nearest to 0.2 rounds to 3: the function returns 3
  where \<open>floor (0.2 * d)\<close> is 2.
\<close>

theorem calculateTokens_rate_table_counterexample:
  "round_double 14.999999999999998 = Fin (15 - 1 / 2 ^ 49)
   \<and> is_double (15 - 1 / 2 ^ 49)
   \<and> calculateTokens ''Public Transport'' (Fin (15 - 1 / 2 ^ 49)) = Fin 3
   \<and> \<lfloor>0.2 * (15 - 1 / 2 ^ 49) :: rat\<rfloor> = 2"
proof -
  have "is_double (15 - 1 / 2 ^ 49)"
    unfolding is_double_def by (rule round_double_below_15)
  moreover have "\<lfloor>0.2 * (15 - 1 / 2 ^ 49) :: rat\<rfloor> = 2" by (simp add: floor_eq_iff)
  ultimately show ?thesis
    using round_double_below_15_literal calculateTokens_values(9) by blast
qed

text \<open>
  Claim C8, as amended. For a mode that is not a key of the rate table and every
  distance, \<open>calculateTokens\<close> does not fail: \<open>rates[mode]\<close> is undefined, the product is
  \<open>NaN\<close>, and \<open>NaN\<close> is what the function returns.
\<close>

theorem calculateTokens_unknown_mode:
  "m \<notin> {''Walking'', ''Cycling'', ''Public Transport''} \<Longrightarrow> calculateTokens m x = NaN"
  by (simp add: calculateTokens_def rates_def)

theorem calculateTokens_unknown_mode_witness:
  "''Bus'' \<notin> {''Walking'', ''Cycling'', ''Public Transport''}
     \<and> calculateTokens ''Bus'' NaN = NaN"
  using calculateTokens_unknown_mode [of "''Bus''" NaN] by simp

text \<open>
  Claim C8 as stated asks for a failure. For the mode \<open>Bus\<close> and the distance 10 the
  call returns, and the value returned is \<open>NaN\<close>.
\<close>

theorem calculateTokens_unknown_mode_counterexample:
  "calculateTokens ''Bus'' (Fin 10) = NaN"
  by (simp add: calculateTokens_def rates_def)

section \<open>Redemption\<close>

text \<open>
  Claim C5, as amended. In every state the page can reach, the cached balance is a
  whole number that is not negative (or the infinity of the doubles). For every
  catalog entry: when the balance is at most \<open>2^53\<close> and at least the cost,
  \<open>redeemReward\<close> debits it by exactly the cost; when it is below the cost,
  \<open>redeemReward\<close> shows \<open>Insufficient balance\<close> and leaves the state as it is;
  whatever the balance, it is not negative afterwards. A redemption is one
  transition, so two calls take place one after the other: against a balance of 50
  and a cost of 50 the first succeeds, the second is refused, and the balance ends
  at 0.
\<close>

theorem redeemReward_atomic_debit:
  assumes "reachable w" and "r \<in> set REWARDS"
  shows "(\<forall>b. balance (ui w) = Fin (of_int b) \<and> b \<le> 2 ^ 53 \<and> cost r \<le> b \<longrightarrow>
            redeemReward r rnd (ui w) =
              ((ui w)\<lparr>balance := Fin (of_int (b - cost r))\<rparr>,
               [RedeemSuccess (''BENGALURU-GREEN-'' @ rnd)]))
       \<and> (\<forall>b. balance (ui w) = Fin (of_int b) \<and> b < cost r \<longrightarrow>
            redeemReward r rnd (ui w) = (ui w, [InsufficientBalance]))
       \<and> ge (balance (ui (step (Redeem r rnd) w))) (Fin 0)
       \<and> (balance (ui w) = Fin 50 \<and> cost r = 50 \<longrightarrow>
            snd (redeemReward r rnd (ui w)) = [RedeemSuccess (''BENGALURU-GREEN-'' @ rnd)]
          \<and> snd (redeemReward r rnd' (ui (step (Redeem r rnd) w))) = [InsufficientBalance]
          \<and> balance (ui (step (Redeem r rnd') (step (Redeem r rnd) w))) = Fin 0)
       \<and> (balance (ui w) = PosInf \<or> (\<exists>b. 0 \<le> b \<and> balance (ui w) = Fin (of_int b)))"
proof -
  have nr: "\<not> redeeming (ui w)"
    using reachable_redeeming_balance [OF assms(1)] by simp
  have pos: "0 < cost r" using assms(2) by (rule REWARDS_cost_pos)
  have enough: "\<forall>b. balance (ui w) = Fin (of_int b) \<and> b \<le> 2 ^ 53 \<and> cost r \<le> b \<longrightarrow>
            redeemReward r rnd (ui w) =
              ((ui w)\<lparr>balance := Fin (of_int (b - cost r))\<rparr>,
               [RedeemSuccess (''BENGALURU-GREEN-'' @ rnd)])"
    using nr pos redeemReward_enough [of "ui w" r _ rnd] by blast
  have short: "\<forall>b. balance (ui w) = Fin (of_int b) \<and> b < cost r \<longrightarrow>
            redeemReward r rnd (ui w) = (ui w, [InsufficientBalance])"
    using nr redeemReward_short [of "ui w" _ r rnd] by blast
  have after: "ge (balance (ui (step (Redeem r rnd) w))) (Fin 0)"
    using reachable_redeeming_balance [OF reachable_step [OF assms(1), of "Redeem r rnd"]]
    by simp
  have twice: "balance (ui w) = Fin 50 \<and> cost r = 50 \<longrightarrow>
            snd (redeemReward r rnd (ui w)) = [RedeemSuccess (''BENGALURU-GREEN-'' @ rnd)]
          \<and> snd (redeemReward r rnd' (ui (step (Redeem r rnd) w))) = [InsufficientBalance]
          \<and> balance (ui (step (Redeem r rnd') (step (Redeem r rnd) w))) = Fin 0"
    using nr by (simp add: redeemReward_def Let_def round_double_numerals)
  from enough short after twice reachable_balance_whole [OF assms(1)]
  show ?thesis by blast
qed

theorem redeemReward_atomic_debit_witness:
  "reachable (step (Connect ''0xabc'' (Resolved (50 * 10 ^ 18))) initial_world)
   \<and> \<lparr>reward_id = 1, cost = 50, partner = ''Corner House''\<rparr> \<in> set REWARDS
   \<and> balance (ui (step (Connect ''0xabc'' (Resolved (50 * 10 ^ 18))) initial_world)) = Fin 50
   \<and> balance (ui (step (Redeem \<lparr>reward_id = 1, cost = 50, partner = ''Corner House''\<rparr> ''A1B2C3'')
        (step (Redeem \<lparr>reward_id = 1, cost = 50, partner = ''Corner House''\<rparr> ''X7Y8Z9'')
          (step (Connect ''0xabc'' (Resolved (50 * 10 ^ 18))) initial_world)))) = Fin 0"
proof -
  have r: "reachable (step (Connect ''0xabc'' (Resolved (50 * 10 ^ 18))) initial_world)"
    by (intro reachable.intros)
  have m: "\<lparr>reward_id = 1, cost = 50, partner = ''Corner House''\<rparr> \<in> set REWARDS"
    by (simp add: REWARDS_def)
  have "round_double 50 = Fin 50" using round_double_int [of 50] by simp
  then have b: "balance (ui (step (Connect ''0xabc'' (Resolved (50 * 10 ^ 18))) initial_world))
      = Fin 50"
    by (simp add: initial_world_def initial_home_def connectWallet_def fetchBalance_def)
  have "balance (ui (step (Connect ''0xabc'' (Resolved (50 * 10 ^ 18))) initial_world)) = Fin 50
      \<and> cost \<lparr>reward_id = 1, cost = 50, partner = ''Corner House''\<rparr> = 50"
    using b by simp
  with redeemReward_atomic_debit [OF r m, of "''X7Y8Z9''" "''A1B2C3''"]
  have "balance (ui (step (Redeem \<lparr>reward_id = 1, cost = 50, partner = ''Corner House''\<rparr> ''A1B2C3'')
        (step (Redeem \<lparr>reward_id = 1, cost = 50, partner = ''Corner House''\<rparr> ''X7Y8Z9'')
          (step (Connect ''0xabc'' (Resolved (50 * 10 ^ 18))) initial_world)))) = Fin 0"
    by blast
  with r m b show ?thesis by blast
qed

text \<open>
  Claim C5 as stated debits every balance that is at least the cost. The balance is a
  double: with \<open>2^60\<close> tokens on the ledger the cell holds \<open>2^60\<close>, \<open>2^60 - 50\<close> rounds
  back to \<open>2^60\<close>, the new balance is not below the old one, and the redemption of an
  entry of cost 50 ends with \<open>Insufficient balance\<close> and no debit.
\<close>

theorem redeemReward_atomic_debit_counterexample:
  "reachable rich_world
   \<and> \<lparr>reward_id = 1, cost = 50, partner = ''Corner House''\<rparr> \<in> set REWARDS
   \<and> balance (ui rich_world) = Fin (2 ^ 60)
   \<and> ge (balance (ui rich_world))
        (Fin (of_int (cost \<lparr>reward_id = 1, cost = 50, partner = ''Corner House''\<rparr>)))
   \<and> redeemReward \<lparr>reward_id = 1, cost = 50, partner = ''Corner House''\<rparr> ''X7Y8Z9''
        (ui rich_world) = (ui rich_world, [InsufficientBalance])"
proof -
  have "redeemReward \<lparr>reward_id = 1, cost = 50, partner = ''Corner House''\<rparr> ''X7Y8Z9''
        (ui rich_world) = (ui rich_world, [InsufficientBalance])"
    by (simp add: rich_world_eq redeemReward_def Let_def round_double_evals)
  moreover have "\<lparr>reward_id = 1, cost = 50, partner = ''Corner House''\<rparr> \<in> set REWARDS"
    by (simp add: REWARDS_def)
  moreover have "balance (ui rich_world) = Fin (2 ^ 60)" by (simp add: rich_world_eq)
  ultimately show ?thesis using reachable_rich_world by simp
qed

section \<open>The trip-listing endpoint\<close>

text \<open>
  Claim C10. \<open>GET /api/trips/:walletAddress\<close> answers 404 \<open>User not found\<close> when the
  lookup of the address finds no user, for any storage and in particular for the
  in-memory storage with no user of that address (compared in lower case) and for the
  database storage with no row of the lower-cased address; it answers 200 with a list
  of trips only when the lookup found a user, and the list is that user's.
\<close>

theorem get_trips_user_not_found:
  "(getUserByWalletAddress storage st a = Inr None \<longrightarrow>
      get_trips storage st a = (404, Message ''User not found''))
   \<and> (\<forall>ts. get_trips storage st a = (200, TripsJson ts) \<longrightarrow>
         (\<exists>u. getUserByWalletAddress storage st a = Inr (Some u)
            \<and> getTripsByUserId storage st (user_id u) = Inr ts))
   \<and> ((\<forall>u \<in> snd ` set (users mem). toLowerCase (walletAddress u) \<noteq> toLowerCase a) \<longrightarrow>
         get_trips MemStorage_impl mem a = (404, Message ''User not found''))
   \<and> ((\<forall>u \<in> set (users_table db). walletAddress u \<noteq> toLowerCase a) \<longrightarrow>
         get_trips DatabaseStorage_impl db a = (404, Message ''User not found''))"
proof (intro conjI)
  show "getUserByWalletAddress storage st a = Inr None \<longrightarrow>
      get_trips storage st a = (404, Message ''User not found'')"
    by (simp add: get_trips_def)
  show "\<forall>ts. get_trips storage st a = (200, TripsJson ts) \<longrightarrow>
         (\<exists>u. getUserByWalletAddress storage st a = Inr (Some u)
            \<and> getTripsByUserId storage st (user_id u) = Inr ts)"
    by (auto simp: get_trips_def split: sum.splits option.splits)
  show "(\<forall>u \<in> snd ` set (users mem). toLowerCase (walletAddress u) \<noteq> toLowerCase a) \<longrightarrow>
         get_trips MemStorage_impl mem a = (404, Message ''User not found'')"
  proof
    assume "\<forall>u \<in> snd ` set (users mem). toLowerCase (walletAddress u) \<noteq> toLowerCase a"
    then have "Mem_getUserByWalletAddress mem a = None"
      by (auto simp: Mem_getUserByWalletAddress_def find_None_iff)
    then show "get_trips MemStorage_impl mem a = (404, Message ''User not found'')"
      by (simp add: get_trips_def MemStorage_impl_def)
  qed
  show "(\<forall>u \<in> set (users_table db). walletAddress u \<noteq> toLowerCase a) \<longrightarrow>
         get_trips DatabaseStorage_impl db a = (404, Message ''User not found'')"
  proof
    assume "\<forall>u \<in> set (users_table db). walletAddress u \<noteq> toLowerCase a"
    then have "filter (\<lambda>u. walletAddress u = toLowerCase a) (users_table db) = []"
      by (simp add: filter_empty_conv)
    then show "get_trips DatabaseStorage_impl db a = (404, Message ''User not found'')"
      by (simp add: get_trips_def DatabaseStorage_impl_def Db_getUserByWalletAddress_def)
  qed
qed

theorem get_trips_user_not_found_witness:
  "getUserByWalletAddress MemStorage_impl Mem_empty ''0xabc'' = Inr None
   \<and> get_trips MemStorage_impl Mem_empty ''0xabc'' = (404, Message ''User not found'')
   \<and> get_trips DatabaseStorage_impl Db_empty ''0xabc'' = (404, Message ''User not found'')
   \<and> get_trips MemStorage_impl
        (fst (Mem_createUser Mem_empty ''0xabc'' ''u1'' 0)) ''0xABC'' = (200, TripsJson [])"
proof -
  have 1: "getUserByWalletAddress MemStorage_impl Mem_empty ''0xabc'' = Inr None"
    by (simp add: MemStorage_impl_def Mem_getUserByWalletAddress_def Mem_empty_def)
  have 2: "\<forall>u \<in> snd ` set (users Mem_empty).
             toLowerCase (walletAddress u) \<noteq> toLowerCase ''0xabc''"
    by (simp add: Mem_empty_def)
  have 3: "\<forall>u \<in> set (users_table Db_empty). walletAddress u \<noteq> toLowerCase ''0xabc''"
    by (simp add: Db_empty_def)
  have 4: "get_trips MemStorage_impl
        (fst (Mem_createUser Mem_empty ''0xabc'' ''u1'' 0)) ''0xABC'' = (200, TripsJson [])"
    by code_simp
  from get_trips_user_not_found
         [of MemStorage_impl Mem_empty "''0xabc''" Mem_empty Db_empty] 1 2 3 4
  show ?thesis by blast
qed

section \<open>The trip-submission flow\<close>

text \<open>
  Claim C1, as amended. For every submission made in a reachable state with a
  connected account, a distance greater than 0 and a positive token amount, whatever
  the storage, the schema and the fate of the request: a trip row is persisted, the
  server's storage changes and a request is sent only if the mint step reported
  success. When the mint step reports success the handler sends the request for the
  account, mode, distance and token amount it computed before the mint, and does not
  wait for the answer. When the mint step reports a failure, the flow ends with the
  toast \<open>Trip submission failed\<close> carrying the cause of the mint failure, no request is
  sent, no trip row is written, the server's storage is as before and the cached
  balance is unchanged. Unless a submission is already in flight, the mint step is
  reached. With the in-memory storage, a request that reaches the server and that the
  schema accepts is persisted with the mode, distance and token amount of the
  request.
\<close>

theorem submitTrip_persists_only_if_minted:
  assumes "reachable w"
    and "truthy (account (ui w))"
    and "form_distance (tripForm (ui w)) = Some d" and "gt0 d"
    and "gt0 (calculateTokens (form_mode (tripForm (ui w))) d)"
    and "r = submitTrip storage accepts delivered mint_reply balance_reply u i n (ui w) srv"
  shows "(persisted r \<noteq> None \<or> server r \<noteq> srv \<or> request r \<noteq> None \<longrightarrow>
            (\<exists>txHash. mint_result r = Some (Resolved txHash)))
       \<and> (\<forall>txHash. mint_result r = Some (Resolved txHash) \<longrightarrow>
            (\<exists>a. account (ui w) = Some a
               \<and> request r = Some \<lparr>req_walletAddress = a,
                    req_mode = JString (form_mode (tripForm (ui w))),
                    req_distance = json_of_number d,
                    req_tokensEarned =
                      json_of_number (calculateTokens (form_mode (tripForm (ui w))) d)\<rparr>))
       \<and> (\<forall>cause. mint_result r = Some (Rejected cause) \<longrightarrow>
             toasts r = [TripSubmissionFailed (BlockchainMintingFailed cause)]
           \<and> request r = None \<and> persisted r = None \<and> server r = srv
           \<and> balance (client r) = balance (ui w))
       \<and> (\<not> minting (ui w) \<longrightarrow> mint_result r = Some mint_reply)
       \<and> (\<forall>txHash x k mem. \<not> minting (ui w) \<and> mint_reply = Resolved txHash \<and> d = Fin x
             \<and> calculateTokens (form_mode (tripForm (ui w))) d = Fin k
             \<and> accepts (form_mode (tripForm (ui w))) x k \<longrightarrow>
            (\<exists>t. persisted (submitTrip MemStorage_impl accepts True mint_reply balance_reply
                               u i n (ui w) mem) = Some t
               \<and> t \<in> snd ` set (trips (server (submitTrip MemStorage_impl accepts True
                               mint_reply balance_reply u i n (ui w) mem)))
               \<and> mode t = form_mode (tripForm (ui w)) \<and> distance t = x
               \<and> tokensEarned t = k))"
proof -
  obtain a where a: "account (ui w) = Some a" "a \<noteq> []"
    using assms(2) by (cases "account (ui w)") auto
  have p: "provider (ui w)" using reachable_provider assms(1,2) by blast
  have nle: "\<not> le0 d" using assms(4) by (rule gt0_not_le0)
  let ?sub = "\<lparr>sub_account = a, sub_mode = form_mode (tripForm (ui w)), sub_distance = d,
                sub_tokens = calculateTokens (form_mode (tripForm (ui w))) d\<rparr>"
  have req: "trip_request_of ?sub =
      \<lparr>req_walletAddress = a, req_mode = JString (form_mode (tripForm (ui w))),
       req_distance = json_of_number d,
       req_tokensEarned = json_of_number (calculateTokens (form_mode (tripForm (ui w))) d)\<rparr>"
    by (simp add: trip_request_of_def)
  have mem: "\<exists>t. persisted (submitTrip MemStorage_impl accepts True mint_reply balance_reply
                               u i n (ui w) mem) = Some t
               \<and> t \<in> snd ` set (trips (server (submitTrip MemStorage_impl accepts True
                               mint_reply balance_reply u i n (ui w) mem)))
               \<and> mode t = form_mode (tripForm (ui w)) \<and> distance t = x
               \<and> tokensEarned t = k"
    if h: "\<not> minting (ui w)" "mint_reply = Resolved txHash" "d = Fin x"
      "calculateTokens (form_mode (tripForm (ui w))) d = Fin k"
      "accepts (form_mode (tripForm (ui w))) x k"
    for txHash x k mem
  proof -
    have b: "submitTrip_begin (ui w) = ((ui w)\<lparr>minting := True\<rparr>, Minting ?sub)"
      using h(1) a p assms(3) nle assms(5) by (rule begin_mint)
    have "trip_request_of ?sub =
      \<lparr>req_walletAddress = a, req_mode = JString (form_mode (tripForm (ui w))),
       req_distance = JNumber x, req_tokensEarned = JNumber k\<rparr>"
      using h(3,4) by (simp add: trip_request_of_def)
    then obtain srv' t where post:
      "post_trips MemStorage_impl accepts mem (trip_request_of ?sub) u i n
         = (srv', (200, TripJson t))"
      and t: "t \<in> snd ` set (trips srv')" "mode t = form_mode (tripForm (ui w))"
        "distance t = x" "tokensEarned t = k"
      using post_trips_Mem_valid
              [of a accepts "form_mode (tripForm (ui w))" x k mem u i n, OF a(2) h(5)]
      by auto
    have "persisted (submitTrip MemStorage_impl accepts True mint_reply balance_reply
            u i n (ui w) mem) = Some t"
      "server (submitTrip MemStorage_impl accepts True mint_reply balance_reply
            u i n (ui w) mem) = srv'"
      unfolding h(2) submitTrip_Resolved_delivered [OF b] by (simp_all add: post)
    with t show ?thesis by simp
  qed
  show ?thesis
  proof (cases "minting (ui w)")
    case True
    then have "r = \<lparr>client = ui w, server = srv, toasts = [], mint_result = None,
                     request = None, persisted = None\<rparr>"
      unfolding assms(6) by (intro submitTrip_Ignored begin_minting)
    with True show ?thesis by simp
  next
    case False
    have b: "submitTrip_begin (ui w) = ((ui w)\<lparr>minting := True\<rparr>, Minting ?sub)"
      using False a p assms(3) nle assms(5) by (rule begin_mint)
    show ?thesis
    proof (cases mint_reply)
      case (Rejected cause)
      have "r = \<lparr>client = (ui w)\<lparr>minting := True\<rparr>\<lparr>minting := False\<rparr>, server = srv,
                  toasts = [TripSubmissionFailed (BlockchainMintingFailed cause)],
                  mint_result = Some (Rejected cause), request = None, persisted = None\<rparr>"
        unfolding assms(6) Rejected by (rule submitTrip_Rejected [OF b])
      with Rejected show ?thesis by simp
    next
      case (Resolved txHash)
      have m: "mint_result r = Some (Resolved txHash)"
        and q: "request r = Some (trip_request_of ?sub)"
        unfolding assms(6) Resolved
        using submitTrip_Resolved_client
                [OF b, of storage accepts delivered txHash balance_reply u i n srv]
        by blast+
      have 1: "persisted r \<noteq> None \<or> server r \<noteq> srv \<or> request r \<noteq> None \<longrightarrow>
            (\<exists>txHash. mint_result r = Some (Resolved txHash))"
        using m by simp
      have 2: "\<forall>txHash. mint_result r = Some (Resolved txHash) \<longrightarrow>
            (\<exists>a. account (ui w) = Some a
               \<and> request r = Some \<lparr>req_walletAddress = a,
                    req_mode = JString (form_mode (tripForm (ui w))),
                    req_distance = json_of_number d,
                    req_tokensEarned =
                      json_of_number (calculateTokens (form_mode (tripForm (ui w))) d)\<rparr>)"
        using a(1) q req by simp
      have 3: "\<forall>cause. mint_result r = Some (Rejected cause) \<longrightarrow>
             toasts r = [TripSubmissionFailed (BlockchainMintingFailed cause)]
           \<and> request r = None \<and> persisted r = None \<and> server r = srv
           \<and> balance (client r) = balance (ui w)"
        using m by simp
      have 4: "\<not> minting (ui w) \<longrightarrow> mint_result r = Some mint_reply"
        using m Resolved by simp
      from 1 2 3 4 mem show ?thesis by blast
    qed
  qed
qed

theorem submitTrip_persists_only_if_minted_witness:
  "reachable walking_world \<and> truthy (account (ui walking_world))
   \<and> form_distance (tripForm (ui walking_world)) = Some (Fin 10) \<and> gt0 (Fin 10)
   \<and> gt0 (calculateTokens (form_mode (tripForm (ui walking_world))) (Fin 10))
   \<and> mint_result (submitTrip MemStorage_impl types_only True (Rejected ''user rejected'')
         (Resolved 0) ''u1'' ''t1'' 7 (ui walking_world) Mem_empty)
       = Some (Rejected ''user rejected'')
   \<and> toasts (submitTrip MemStorage_impl types_only True (Rejected ''user rejected'')
         (Resolved 0) ''u1'' ''t1'' 7 (ui walking_world) Mem_empty)
       = [TripSubmissionFailed (BlockchainMintingFailed ''user rejected'')]
   \<and> server (submitTrip MemStorage_impl types_only True (Rejected ''user rejected'')
         (Resolved 0) ''u1'' ''t1'' 7 (ui walking_world) Mem_empty) = Mem_empty
   \<and> balance (client (submitTrip MemStorage_impl types_only True (Rejected ''user rejected'')
         (Resolved 0) ''u1'' ''t1'' 7 (ui walking_world) Mem_empty)) = Fin 125
   \<and> persisted (submitTrip MemStorage_impl types_only True (Resolved (Some ''0xfeed''))
         (Resolved (135 * 10 ^ 18)) ''u1'' ''t1'' 7 (ui walking_world) Mem_empty)
       = Some \<lparr>trip_id = ''t1'', userId = ''u1'', mode = ''Walking'', distance = 10,
               tokensEarned = 10, createdAt = 7\<rparr>"
proof -
  have h: "truthy (account (ui walking_world))"
    "form_distance (tripForm (ui walking_world)) = Some (Fin 10)" "gt0 (Fin 10)"
    "gt0 (calculateTokens (form_mode (tripForm (ui walking_world))) (Fin 10))"
    "\<not> minting (ui walking_world)" "balance (ui walking_world) = Fin 125"
    by (simp_all add: walking_world_eq calculateTokens_values)
  have p: "persisted (submitTrip MemStorage_impl types_only True (Resolved (Some ''0xfeed''))
         (Resolved (135 * 10 ^ 18)) ''u1'' ''t1'' 7 (ui walking_world) Mem_empty)
       = Some \<lparr>trip_id = ''t1'', userId = ''u1'', mode = ''Walking'', distance = 10,
               tokensEarned = 10, createdAt = 7\<rparr>"
    by (simp add: walking_world_eq run_defs)
  from submitTrip_persists_only_if_minted [OF reachable_walking_world h(1-4) refl,
      of MemStorage_impl types_only True "Rejected ''user rejected''" "Resolved 0" "''u1''"
        "''t1''" 7 Mem_empty]
    h reachable_walking_world p
  show ?thesis by auto
qed

text \<open>
  Claim C1 as stated says that success of the mint is also sufficient for a trip row.
  The 10 km walk is minted and the request does not reach the server: the success
  toast is shown and no trip is stored. A walk of three billion kilometres is minted
  and its request reaches a server with the database storage: the token amount is
  outside the range of the \<open>integer\<close> column and no trip is stored, whether the schema
  checks the types only or the range of the column too.
\<close>

theorem submitTrip_persists_only_if_minted_counterexample:
  "mint_result (submitTrip MemStorage_impl types_only False (Resolved (Some ''0xfeed''))
       (Resolved (135 * 10 ^ 18)) ''u1'' ''t1'' 7 (ui walking_world) Mem_empty)
     = Some (Resolved (Some ''0xfeed''))
   \<and> toasts (submitTrip MemStorage_impl types_only False (Resolved (Some ''0xfeed''))
       (Resolved (135 * 10 ^ 18)) ''u1'' ''t1'' 7 (ui walking_world) Mem_empty)
     = [TokensMinted (Fin 10) ''0xfeed'']
   \<and> persisted (submitTrip MemStorage_impl types_only False (Resolved (Some ''0xfeed''))
       (Resolved (135 * 10 ^ 18)) ''u1'' ''t1'' 7 (ui walking_world) Mem_empty) = None
   \<and> trips (server (submitTrip MemStorage_impl types_only False (Resolved (Some ''0xfeed''))
       (Resolved (135 * 10 ^ 18)) ''u1'' ''t1'' 7 (ui walking_world) Mem_empty)) = []
   \<and> mint_result (submitTrip DatabaseStorage_impl types_only True (Resolved (Some ''0xfeed''))
       (Resolved (135 * 10 ^ 18)) ''u1'' ''t1'' 7 (ui long_walk_world) Db_empty)
     = Some (Resolved (Some ''0xfeed''))
   \<and> persisted (submitTrip DatabaseStorage_impl types_only True (Resolved (Some ''0xfeed''))
       (Resolved (135 * 10 ^ 18)) ''u1'' ''t1'' 7 (ui long_walk_world) Db_empty) = None
   \<and> trips_table (server (submitTrip DatabaseStorage_impl types_only True
       (Resolved (Some ''0xfeed'')) (Resolved (135 * 10 ^ 18)) ''u1'' ''t1'' 7
       (ui long_walk_world) Db_empty)) = []
   \<and> persisted (submitTrip DatabaseStorage_impl column_ranges True (Resolved (Some ''0xfeed''))
       (Resolved (135 * 10 ^ 18)) ''u1'' ''t1'' 7 (ui long_walk_world) Db_empty) = None
   \<and> trips_table (server (submitTrip DatabaseStorage_impl column_ranges True
       (Resolved (Some ''0xfeed'')) (Resolved (135 * 10 ^ 18)) ''u1'' ''t1'' 7
       (ui long_walk_world) Db_empty)) = []"
  by (simp add: walking_world_eq long_walk_world_eq run_defs Db_run_defs column_ranges_def)

text \<open>
  Claim C4, as amended. After a successful mint the cached balance is what
  \<open>parseInt\<close> makes of a fresh \<open>balanceOf\<close> read when that read succeeds: the double
  nearest to the whole-token part of the amount, which is that whole number itself
  up to \<open>2^53\<close>. It is left as it was when the read fails. The trip's token amount is
  never added to it.
\<close>

theorem submitTrip_balance_after_mint:
  assumes "mint_result (submitTrip storage accepts delivered m b u i n s srv)
             = Some (Resolved txHash)"
  shows "balance (client (submitTrip storage accepts delivered m b u i n s srv)) =
           (case b of Resolved wei \<Rightarrow> round_double (of_nat (wei div 10 ^ 18))
            | Rejected cause \<Rightarrow> balance s)
       \<and> (\<forall>wei. b = Resolved wei \<and> wei div 10 ^ 18 \<le> 2 ^ 53 \<longrightarrow>
            balance (client (submitTrip storage accepts delivered m b u i n s srv))
              = Fin (of_nat (wei div 10 ^ 18)))"
proof -
  have 1: "balance (client (submitTrip storage accepts delivered m b u i n s srv)) =
           (case b of Resolved wei \<Rightarrow> round_double (of_nat (wei div 10 ^ 18))
            | Rejected cause \<Rightarrow> balance s)"
  proof (cases "submitTrip_begin s")
    case (Pair s1 res)
    then have s1: "balance s1 = balance s" using begin_balance [of s] by simp
    show ?thesis
    proof (cases res)
      case Ignored
      with Pair assms show ?thesis by (simp add: submitTrip_Ignored)
    next
      case (Shown t)
      with Pair assms show ?thesis by (simp add: submitTrip_Shown)
    next
      case (Minting sub)
      show ?thesis
      proof (cases m)
        case (Rejected cause)
        with Pair Minting assms show ?thesis by (simp add: submitTrip_Rejected)
      next
        case (Resolved tx)
        with Pair Minting s1 show ?thesis
          by (simp add: submitTrip_Resolved_client balance_finish balance_fetchBalance
                split: settled.splits)
      qed
    qed
  qed
  have rd: "round_double (of_nat k) = Fin (of_nat k)" if "k \<le> 2 ^ 53" for k :: nat
  proof -
    have "int k \<le> 2 ^ 53" using that by (metis of_nat_le_iff of_nat_numeral of_nat_power)
    then show ?thesis using round_double_int [of "int k"] by simp
  qed
  have 2: "balance (client (submitTrip storage accepts delivered m b u i n s srv))
              = Fin (of_nat (wei div 10 ^ 18))"
    if "b = Resolved wei \<and> wei div 10 ^ 18 \<le> 2 ^ 53" for wei
  proof -
    have "balance (client (submitTrip storage accepts delivered m b u i n s srv))
            = round_double (of_nat (wei div 10 ^ 18))"
      unfolding 1 using that by simp
    also have "\<dots> = Fin (of_nat (wei div 10 ^ 18))"
      using that by (intro rd) blast
    finally show ?thesis .
  qed
  from 1 2 show ?thesis by blast
qed

theorem submitTrip_balance_after_mint_witness:
  "mint_result (submitTrip MemStorage_impl types_only True (Resolved (Some ''0xfeed''))
       (Resolved (134999999 * 10 ^ 12)) ''u1'' ''t1'' 7 (ui walking_world) Mem_empty)
     = Some (Resolved (Some ''0xfeed''))
   \<and> balance (client (submitTrip MemStorage_impl types_only True (Resolved (Some ''0xfeed''))
       (Resolved (134999999 * 10 ^ 12)) ''u1'' ''t1'' 7 (ui walking_world) Mem_empty))
     = Fin 134"
proof -
  have h: "mint_result (submitTrip MemStorage_impl types_only True (Resolved (Some ''0xfeed''))
       (Resolved (134999999 * 10 ^ 12)) ''u1'' ''t1'' 7 (ui walking_world) Mem_empty)
         = Some (Resolved (Some ''0xfeed''))"
    by (simp add: walking_world_eq run_defs)
  from submitTrip_balance_after_mint [OF h] h show ?thesis
    by (simp add: round_double_numerals)
qed

text \<open>
  Claim C4 as stated fails when the balance read fails: the mint of the 10 tokens of a
  10 km walk succeeds, \<open>balanceOf\<close> is rejected, the toast \<open>Balance update failed\<close> is
  shown and the cached balance is still the 125 it was before the mint. And when the
  read succeeds with \<open>2^53 + 1\<close> tokens, the cell holds \<open>2^53\<close>.
\<close>

theorem submitTrip_balance_after_mint_counterexample:
  "mint_result (submitTrip MemStorage_impl types_only True (Resolved (Some ''0xfeed''))
        (Rejected ''timeout'') ''u1'' ''t1'' 7 (ui walking_world) Mem_empty)
     = Some (Resolved (Some ''0xfeed''))
   \<and> toasts (submitTrip MemStorage_impl types_only True (Resolved (Some ''0xfeed''))
        (Rejected ''timeout'') ''u1'' ''t1'' 7 (ui walking_world) Mem_empty)
       = [BalanceUpdateFailed, TokensMinted (Fin 10) ''0xfeed'']
   \<and> balance (client (submitTrip MemStorage_impl types_only True (Resolved (Some ''0xfeed''))
        (Rejected ''timeout'') ''u1'' ''t1'' 7 (ui walking_world) Mem_empty)) = Fin 125
   \<and> balance (client (submitTrip MemStorage_impl types_only True (Resolved (Some ''0xfeed''))
        (Resolved ((2 ^ 53 + 1) * 10 ^ 18)) ''u1'' ''t1'' 7 (ui walking_world) Mem_empty))
       = Fin (2 ^ 53)"
  by (simp add: walking_world_eq run_defs round_double_evals)

text \<open>
  Claim C7, as amended. For every submission with a connected account, a distance
  greater than 0 and a token amount of exactly 0, no mint is performed and no trip is
  logged: the handler throws \<open>No provider available or no tokens to mint\<close> and, unless
  a submission is already in flight, the flow ends with the toast
  \<open>Trip submission failed\<close> and the page state as it was.
\<close>

theorem submitTrip_zero_tokens:
  assumes "truthy (account s)"
    and "form_distance (tripForm s) = Some d" and "gt0 d"
    and "calculateTokens (form_mode (tripForm s)) d = Fin 0"
    and "r = submitTrip storage accepts delivered m b u i n s srv"
  shows "mint_result r = None \<and> persisted r = None \<and> server r = srv
       \<and> balance (client r) = balance s
       \<and> (\<not> minting s \<longrightarrow> toasts r = [TripSubmissionFailed ErrorLoggingTrip] \<and> client r = s)"
proof -
  obtain a where a: "account s = Some a" "a \<noteq> []"
    using assms(1) by (cases "account s") auto
  have nle: "\<not> le0 d" using assms(3) by (rule gt0_not_le0)
  have ngt: "\<not> gt0 (calculateTokens (form_mode (tripForm s)) d)" using assms(4) by simp
  show ?thesis
  proof (cases "minting s")
    case True
    then have "r = \<lparr>client = s, server = srv, toasts = [], mint_result = None,
                     request = None, persisted = None\<rparr>"
      unfolding assms(5) by (intro submitTrip_Ignored begin_minting)
    with True show ?thesis by simp
  next
    case False
    have "submitTrip_begin s =
            (s\<lparr>minting := False\<rparr>, Shown (TripSubmissionFailed ErrorLoggingTrip))"
      using False a assms(2) nle ngt by (rule begin_no_tokens)
    then have "r = \<lparr>client = s\<lparr>minting := False\<rparr>, server = srv,
                     toasts = [TripSubmissionFailed ErrorLoggingTrip], mint_result = None,
                     request = None, persisted = None\<rparr>"
      unfolding assms(5) by (rule submitTrip_Shown)
    moreover have "s\<lparr>minting := False\<rparr> = s" using False by (cases s) simp
    ultimately show ?thesis by simp
  qed
qed

theorem submitTrip_zero_tokens_witness:
  "truthy (account (ui transit_world))
   \<and> form_distance (tripForm (ui transit_world)) = Some (Fin 1) \<and> gt0 (Fin 1)
   \<and> calculateTokens (form_mode (tripForm (ui transit_world))) (Fin 1) = Fin 0
   \<and> toasts (submitTrip MemStorage_impl types_only True (Resolved (Some ''0xfeed''))
        (Resolved 0) ''u1'' ''t1'' 7 (ui transit_world) Mem_empty)
       = [TripSubmissionFailed ErrorLoggingTrip]
   \<and> persisted (submitTrip MemStorage_impl types_only True (Resolved (Some ''0xfeed''))
        (Resolved 0) ''u1'' ''t1'' 7 (ui transit_world) Mem_empty) = None"
proof -
  have h: "truthy (account (ui transit_world))"
    "form_distance (tripForm (ui transit_world)) = Some (Fin 1)" "gt0 (Fin 1)"
    "calculateTokens (form_mode (tripForm (ui transit_world))) (Fin 1) = Fin 0"
    "\<not> minting (ui transit_world)"
    by (simp_all add: transit_world_eq calculateTokens_values)
  from submitTrip_zero_tokens [OF h(1-4) refl,
      of MemStorage_impl types_only True "Resolved (Some ''0xfeed'')" "Resolved 0" "''u1''"
        "''t1''" 7 Mem_empty] h
  show ?thesis by auto
qed

text \<open>
  Claim C7 as stated says that the zero-value trip is logged. One kilometre by public
  transport earns 0 tokens; the submission ends with the failure toast and the server
  has no trip.
\<close>

theorem submitTrip_zero_tokens_counterexample:
  "calculateTokens ''Public Transport'' (Fin 1) = Fin 0
   \<and> toasts (submitTrip MemStorage_impl types_only True (Resolved (Some ''0xfeed''))
        (Resolved (125 * 10 ^ 18)) ''u1'' ''t1'' 7 (ui transit_world) Mem_empty)
       = [TripSubmissionFailed ErrorLoggingTrip]
   \<and> persisted (submitTrip MemStorage_impl types_only True (Resolved (Some ''0xfeed''))
        (Resolved (125 * 10 ^ 18)) ''u1'' ''t1'' 7 (ui transit_world) Mem_empty) = None
   \<and> trips (server (submitTrip MemStorage_impl types_only True (Resolved (Some ''0xfeed''))
        (Resolved (125 * 10 ^ 18)) ''u1'' ''t1'' 7 (ui transit_world) Mem_empty)) = []"
  by (simp add: transit_world_eq run_defs)

text \<open>
  Claim C6. In every reachable state at most one call of \<open>submitTrip\<close> is suspended.
  While one is (waiting for the mint or for the balance read after it), a new call
  returns at once with \<open>Already minting, ignoring duplicate submission\<close> and changes
  nothing; nothing is queued. When the suspended call completes, by a rejected mint or
  after the balance read, no call is suspended and a new call is no longer ignored.
\<close>

theorem submit_in_flight_guard:
  assumes "reachable w"
  shows "length (suspended w) \<le> 1
       \<and> (suspended w \<noteq> [] \<longrightarrow> submitTrip_begin (ui w) = (ui w, Ignored) \<and> step Submit w = w)
       \<and> (suspended w = [] \<longrightarrow> snd (submitTrip_begin (ui w)) \<noteq> Ignored)
       \<and> (\<forall>sub txHash. suspended w = [(sub, AwaitingMint)] \<longrightarrow>
             suspended (step (MintSettled (Resolved txHash)) w) = [(sub, AwaitingBalance txHash)])
       \<and> (\<forall>sub cause. suspended w = [(sub, AwaitingMint)] \<longrightarrow>
             suspended (step (MintSettled (Rejected cause)) w) = []
           \<and> snd (submitTrip_begin (ui (step (MintSettled (Rejected cause)) w))) \<noteq> Ignored)
       \<and> (\<forall>sub txHash reply. suspended w = [(sub, AwaitingBalance txHash)] \<longrightarrow>
             suspended (step (BalanceSettled reply) w) = []
           \<and> snd (submitTrip_begin (ui (step (BalanceSettled reply) w))) \<noteq> Ignored)"
proof -
  have inv: "length (suspended w) \<le> 1" "minting (ui w) \<longleftrightarrow> suspended w \<noteq> []"
    using reachable_suspended_minting [OF assms] by simp_all
  have busy: "suspended w \<noteq> [] \<longrightarrow>
      submitTrip_begin (ui w) = (ui w, Ignored) \<and> step Submit w = w"
    using inv(2) by (simp add: begin_minting)
  have idle: "suspended w = [] \<longrightarrow> snd (submitTrip_begin (ui w)) \<noteq> Ignored"
    using assms by (simp add: reachable_idle_not_Ignored)
  have res: "\<forall>sub txHash. suspended w = [(sub, AwaitingMint)] \<longrightarrow>
             suspended (step (MintSettled (Resolved txHash)) w) = [(sub, AwaitingBalance txHash)]"
    by simp
  have rej: "suspended w = [(sub, AwaitingMint)] \<longrightarrow>
             suspended (step (MintSettled (Rejected cause)) w) = []
           \<and> snd (submitTrip_begin (ui (step (MintSettled (Rejected cause)) w))) \<noteq> Ignored"
    for sub cause
  proof
    assume a: "suspended w = [(sub, AwaitingMint)]"
    then have e: "suspended (step (MintSettled (Rejected cause)) w) = []" by simp
    moreover have "reachable (step (MintSettled (Rejected cause)) w)"
      using assms by (rule reachable_step)
    ultimately show "suspended (step (MintSettled (Rejected cause)) w) = []
           \<and> snd (submitTrip_begin (ui (step (MintSettled (Rejected cause)) w))) \<noteq> Ignored"
      using reachable_idle_not_Ignored by blast
  qed
  have bal: "suspended w = [(sub, AwaitingBalance txHash)] \<longrightarrow>
             suspended (step (BalanceSettled reply) w) = []
           \<and> snd (submitTrip_begin (ui (step (BalanceSettled reply) w))) \<noteq> Ignored"
    for sub txHash reply
  proof
    assume a: "suspended w = [(sub, AwaitingBalance txHash)]"
    then have e: "suspended (step (BalanceSettled reply) w) = []"
      by (simp split: prod.splits)
    moreover have "reachable (step (BalanceSettled reply) w)"
      using assms by (rule reachable_step)
    ultimately show "suspended (step (BalanceSettled reply) w) = []
           \<and> snd (submitTrip_begin (ui (step (BalanceSettled reply) w))) \<noteq> Ignored"
      using reachable_idle_not_Ignored by blast
  qed
  from inv(1) busy idle res rej bal show ?thesis by blast
qed

theorem submit_in_flight_guard_witness:
  "reachable minting_world
   \<and> suspended minting_world =
       [(\<lparr>sub_account = ''0xAbC1'', sub_mode = ''Walking'', sub_distance = Fin 10,
          sub_tokens = Fin 10\<rparr>, AwaitingMint)]
   \<and> step Submit minting_world = minting_world
   \<and> suspended (step (MintSettled (Rejected ''user rejected'')) minting_world) = []
   \<and> snd (submitTrip_begin (ui (step (MintSettled (Rejected ''user rejected'')) minting_world)))
       \<noteq> Ignored"
proof -
  have s: "suspended minting_world =
       [(\<lparr>sub_account = ''0xAbC1'', sub_mode = ''Walking'', sub_distance = Fin 10,
          sub_tokens = Fin 10\<rparr>, AwaitingMint)]"
    by (simp add: minting_world_eq)
  then have ne: "suspended minting_world \<noteq> []" by simp
  from submit_in_flight_guard [OF reachable_minting_world] s ne reachable_minting_world
  show ?thesis by blast
qed




section \<open>Account resolution\<close>

text \<open>
  Claim C9, as amended. Address equality is case-insensitive in both storages: after
  find-or-create (\<open>POST /api/auth/wallet\<close>) with a non-empty address \<open>a\<close>, a lookup with
  any case variant of \<open>a\<close> returns that same user, and find-or-create with a case
  variant returns it again and leaves the storage as it is. The database storage
  stores the address lower-cased; the in-memory storage stores it as given and
  lower-cases both sides when it compares.
\<close>

theorem find_or_create_case_insensitive:
  assumes "a \<noteq> []" and "toLowerCase b = toLowerCase a"
  shows "(\<exists>st' u. post_auth_wallet MemStorage_impl st a i n = (st', (200, UserJson u))
           \<and> Mem_getUserByWalletAddress st' b = Some u
           \<and> post_auth_wallet MemStorage_impl st' b i' n' = (st', (200, UserJson u)))
       \<and> (\<exists>db' u. post_auth_wallet DatabaseStorage_impl db a i n = (db', (200, UserJson u))
           \<and> walletAddress u = toLowerCase a
           \<and> Db_getUserByWalletAddress db' b = Some u
           \<and> post_auth_wallet DatabaseStorage_impl db' b i' n' = (db', (200, UserJson u)))"
  using Mem_find_or_create [OF assms] Db_find_or_create [OF assms] by blast

theorem find_or_create_case_insensitive_witness:
  "''0xAbC1'' \<noteq> [] \<and> toLowerCase ''0XABC1'' = toLowerCase ''0xAbC1''
   \<and> Mem_getUserByWalletAddress
         (fst (post_auth_wallet MemStorage_impl Mem_empty ''0xAbC1'' ''u1'' 7)) ''0XABC1''
       = Some \<lparr>user_id = ''u1'', walletAddress = ''0xAbC1'', user_createdAt = 7\<rparr>
   \<and> Db_getUserByWalletAddress
         (fst (post_auth_wallet DatabaseStorage_impl Db_empty ''0xAbC1'' ''u1'' 7)) ''0XABC1''
       = Some \<lparr>user_id = ''u1'', walletAddress = ''0xabc1'', user_createdAt = 7\<rparr>"
proof -
  have ne: "''0xAbC1'' \<noteq> []" by simp
  have lc: "toLowerCase ''0XABC1'' = toLowerCase ''0xAbC1''" by code_simp
  have m: "post_auth_wallet MemStorage_impl Mem_empty ''0xAbC1'' ''u1'' 7 =
      (\<lparr>users = [(''u1'', \<lparr>user_id = ''u1'', walletAddress = ''0xAbC1'', user_createdAt = 7\<rparr>)],
        trips = []\<rparr>,
       (200, UserJson \<lparr>user_id = ''u1'', walletAddress = ''0xAbC1'', user_createdAt = 7\<rparr>))"
    by (simp add: post_auth_wallet_def MemStorage_impl_def Mem_getUserByWalletAddress_def
          Mem_createUser_def Mem_empty_def Let_def)
  have d: "post_auth_wallet DatabaseStorage_impl Db_empty ''0xAbC1'' ''u1'' 7 =
      (\<lparr>users_table = [\<lparr>user_id = ''u1'', walletAddress = ''0xabc1'', user_createdAt = 7\<rparr>],
        trips_table = []\<rparr>,
       (200, UserJson \<lparr>user_id = ''u1'', walletAddress = ''0xabc1'', user_createdAt = 7\<rparr>))"
    by code_simp
  from find_or_create_case_insensitive [OF ne lc, of Mem_empty "''u1''" 7 "''u2''" 8 Db_empty]
  obtain st' u db' v where
    M: "post_auth_wallet MemStorage_impl Mem_empty ''0xAbC1'' ''u1'' 7 = (st', (200, UserJson u))"
      "Mem_getUserByWalletAddress st' ''0XABC1'' = Some u"
    and D: "post_auth_wallet DatabaseStorage_impl Db_empty ''0xAbC1'' ''u1'' 7
              = (db', (200, UserJson v))"
      "Db_getUserByWalletAddress db' ''0XABC1'' = Some v"
    by blast
  have "Mem_getUserByWalletAddress
         (fst (post_auth_wallet MemStorage_impl Mem_empty ''0xAbC1'' ''u1'' 7)) ''0XABC1''
       = Some \<lparr>user_id = ''u1'', walletAddress = ''0xAbC1'', user_createdAt = 7\<rparr>"
    using M unfolding m by auto
  moreover have "Db_getUserByWalletAddress
         (fst (post_auth_wallet DatabaseStorage_impl Db_empty ''0xAbC1'' ''u1'' 7)) ''0XABC1''
       = Some \<lparr>user_id = ''u1'', walletAddress = ''0xabc1'', user_createdAt = 7\<rparr>"
    using D unfolding d by auto
  ultimately show ?thesis using ne lc by blast
qed

text \<open>
  Claim C9 as stated says that the address is stored lower-cased. The in-memory storage
  stores \<open>0xAbC1\<close> as it is given.
\<close>

theorem MemStorage_keeps_case_counterexample:
  "post_auth_wallet MemStorage_impl Mem_empty ''0xAbC1'' ''u1'' 7 =
      (\<lparr>users = [(''u1'', \<lparr>user_id = ''u1'', walletAddress = ''0xAbC1'', user_createdAt = 7\<rparr>)],
        trips = []\<rparr>,
       (200, UserJson \<lparr>user_id = ''u1'', walletAddress = ''0xAbC1'', user_createdAt = 7\<rparr>))
   \<and> toLowerCase ''0xAbC1'' = ''0xabc1''"
  by code_simp

end
